theory Spec2Isabelle
  imports Complex_Main
begin

section \<open>Poster generation (gen\_poster.py): data model\<close>

text \<open>
  Python exceptions are values. Only subclasses of \<open>Exception\<close> occur: they are what the
  \<open>except Exception\<close> handlers of the source catch.
\<close>

datatype exn = ValueError | IndexError | KeyError | OSError | TypeError

text \<open>
  A pixel value is a tuple of Python integers. Stored pixels are 8-bit, but the source does
  arithmetic on the channels (\<open>r + 100\<close>), so the channels are unbounded integers.
\<close>

type_synonym rgba = "int \<times> int \<times> int \<times> int"

definition valid_rgba :: "rgba \<Rightarrow> bool" where
  "valid_rgba c =
     (case c of (r, g, b, a) \<Rightarrow>
        0 \<le> r \<and> r \<le> 255 \<and> 0 \<le> g \<and> g \<le> 255 \<and> 0 \<le> b \<and> b \<le> 255 \<and> 0 \<le> a \<and> a \<le> 255)"

text \<open>
  A PIL image: its mode, its size and its pixel grid. The grid holds four channels per
  pixel, as PIL stores the modes RGBA and RGB (for RGB the fourth one is padding and
  \<open>getpixel\<close> returns the first three). Every other mode is \<open>OtherMode\<close>.
\<close>

datatype img_mode = RGBA | RGB | OtherMode

record image =
  mode :: img_mode
  width :: int
  height :: int
  data :: "int \<times> int \<Rightarrow> rgba"

text \<open>\<open>img.getpixel((x, y))\<close>: PIL raises IndexError outside the image.\<close>

definition getpixel :: "image \<Rightarrow> int \<times> int \<Rightarrow> exn + rgba" where
  "getpixel img p =
     (case p of (x, y) \<Rightarrow>
        if 0 \<le> x \<and> x < width img \<and> 0 \<le> y \<and> y < height img then Inr (data img p)
        else Inl IndexError)"

text \<open>
  \<open>random.randint(a, b)\<close>: the draw is a parameter \<open>s\<close> (any integer), the result is
  \<open>a + s mod (b - a + 1)\<close>, which ranges over all of \<open>a .. b\<close>; an empty range raises
  ValueError.
\<close>

definition randint :: "int \<Rightarrow> int \<Rightarrow> int \<Rightarrow> exn + int" where
  "randint s a b = (if b < a then Inl ValueError else Inr (a + s mod (b - a + 1)))"

section \<open>get\_random\_color\<close>

text \<open>
  The try block of \<open>get_random_color\<close>. \<open>opened\<close> is the outcome of
  \<open>Image.open(image_path)\<close>, \<open>to_rgba\<close> is PIL's \<open>img.convert("RGBA")\<close>, \<open>rnd k\<close> is the
  \<open>k\<close>-th random draw. \<open>int(width * 0.5)\<close> and \<open>int(width * 0.8)\<close> are the integer
  parts of the exact products (sizes are not negative).
\<close>

definition sample_point :: "(nat \<Rightarrow> int) \<Rightarrow> image \<Rightarrow> exn + (int \<times> int)" where
  "sample_point rnd img =
     (case randint (rnd 0) (width img * 5 div 10) (width img * 8 div 10) of
        Inl e \<Rightarrow> Inl e
      | Inr random_x \<Rightarrow>
          (case randint (rnd 1) (height img * 5 div 10) (height img * 8 div 10) of
             Inl e \<Rightarrow> Inl e
           | Inr random_y \<Rightarrow> Inr (random_x, random_y)))"

definition get_random_color_body ::
  "(image \<Rightarrow> image) \<Rightarrow> (nat \<Rightarrow> int) \<Rightarrow> exn + image \<Rightarrow> exn + rgba" where
  "get_random_color_body to_rgba rnd opened =
     (case opened of
        Inl e \<Rightarrow> Inl e
      | Inr img \<Rightarrow>
          (case sample_point rnd img of
             Inl e \<Rightarrow> Inl e
           | Inr p \<Rightarrow>
               if mode img = RGBA then
                 (case getpixel img p of Inl e \<Rightarrow> Inl e | Inr (r, g, b, a) \<Rightarrow> Inr (r, g, b, a))
               else if mode img = RGB then
                 (case getpixel img p of
                    Inl e \<Rightarrow> Inl e
                  | Inr (r, g, b, _) \<Rightarrow> Inr (r + 100, g + 50, b, 255))
               else
                 (case getpixel (to_rgba img) p of
                    Inl e \<Rightarrow> Inl e
                  | Inr (r, g, b, a) \<Rightarrow> Inr (r, g, b, a))))"

text \<open>
  The whole function: every exception of the body is caught and replaced by a random
  colour with channels in \<open>50 .. 200\<close>. The second component says whether the error was
  logged.
\<close>

definition fallback_channel :: "int \<Rightarrow> int" where
  "fallback_channel s = (case randint s 50 200 of Inl _ \<Rightarrow> 50 | Inr v \<Rightarrow> v)"

definition get_random_color ::
  "(image \<Rightarrow> image) \<Rightarrow> (nat \<Rightarrow> int) \<Rightarrow> exn + image \<Rightarrow> rgba \<times> bool" where
  "get_random_color to_rgba rnd opened =
     (case get_random_color_body to_rgba rnd opened of
        Inr c \<Rightarrow> (c, False)
      | Inl e \<Rightarrow>
          ((fallback_channel (rnd 2), fallback_channel (rnd 3), fallback_channel (rnd 4), 255),
           True))"

section \<open>PIL primitives used by the generators\<close>

text \<open>
  PIL stores every channel as one byte: a colour given to \<open>Image.new\<close> or as the \<open>fill\<close>
  of a drawing call is clipped to \<open>0 .. 255\<close> channel by channel.
\<close>

definition clip8 :: "int \<Rightarrow> int" where
  "clip8 v = (if v < 0 then 0 else if 255 < v then 255 else v)"

definition ink :: "rgba \<Rightarrow> rgba" where
  "ink c = (case c of (r, g, b, a) \<Rightarrow> (clip8 r, clip8 g, clip8 b, clip8 a))"

text \<open>\<open>Image.new(mode, size, color)\<close>: a negative size raises ValueError.\<close>

definition Image_new :: "img_mode \<Rightarrow> int \<times> int \<Rightarrow> rgba \<Rightarrow> exn + image" where
  "Image_new m sz color =
     (case sz of (w, h) \<Rightarrow>
        if w < 0 \<or> h < 0 then Inl ValueError
        else Inr \<lparr>mode = m, width = w, height = h, data = (\<lambda>p. ink color)\<rparr>)"

text \<open>
  \<open>draw.line([(x, y0), (x, y1)], fill=c)\<close> for a vertical line of width 1: the pixels of
  column \<open>x\<close> from row \<open>y0\<close> to row \<open>y1\<close> inclusive that lie inside the image.
\<close>

definition draw_vline :: "image \<Rightarrow> int \<Rightarrow> int \<Rightarrow> int \<Rightarrow> rgba \<Rightarrow> image" where
  "draw_vline img x y0 y1 c =
     img\<lparr>data := (\<lambda>(px, py).
        if px = x \<and> y0 \<le> py \<and> py \<le> y1 \<and> 0 \<le> px \<and> px < width img \<and> 0 \<le> py \<and> py < height img
        then ink c else data img (px, py))\<rparr>"

text \<open>
  Python's \<open>int(v)\<close> on a float truncates towards zero. Floats are modelled as exact reals.
\<close>

definition py_int :: "real \<Rightarrow> int" where
  "py_int v = (if 0 \<le> v then \<lfloor>v\<rfloor> else \<lceil>v\<rceil>)"

section \<open>create\_gradient\_background\<close>

type_synonym rgb = "int \<times> int \<times> int"

text \<open>
  One channel of column \<open>x\<close>:
  \<open>int(color1[i] + (color2[i] - color1[i]) * x / width)\<close>, with \<open>/\<close> the true division.
\<close>

definition gradient_channel :: "int \<Rightarrow> int \<Rightarrow> int \<Rightarrow> int \<Rightarrow> int" where
  "gradient_channel a b x w = py_int (of_int a + of_int ((b - a) * x) / of_int w)"

text \<open>
  The body of the loop \<open>for x in range(width)\<close>: the three channels of the column and the
  vertical line drawn in them at full opacity.
\<close>

definition gradient_column :: "rgb \<Rightarrow> rgb \<Rightarrow> int \<Rightarrow> int \<Rightarrow> int \<Rightarrow> image \<Rightarrow> image" where
  "gradient_column color1 color2 w h x gradient =
     (case color1 of (r1, g1, b1) \<Rightarrow> case color2 of (r2, g2, b2) \<Rightarrow>
        draw_vline gradient x 0 h
          (gradient_channel r1 r2 x w, gradient_channel g1 g2 x w, gradient_channel b1 b2 x w, 255))"

text \<open>
  \<open>create_gradient_background(width, height, color1, color2)\<close>. A colour that is \<open>None\<close> is
  drawn at random from one of 26 palettes; the drawn colours are the parameters \<open>drawn1\<close>
  and \<open>drawn2\<close>. The image starts filled with \<open>color1\<close> (opaque, as PIL completes a
  3-tuple) and the loop draws the columns \<open>0 .. width - 1\<close> in order.
\<close>

definition create_gradient_background ::
  "rgb \<Rightarrow> rgb \<Rightarrow> int \<Rightarrow> int \<Rightarrow> rgb option \<Rightarrow> rgb option \<Rightarrow> exn + image" where
  "create_gradient_background drawn1 drawn2 w h color1 color2 =
     (let c1 = (case color1 of None \<Rightarrow> drawn1 | Some c \<Rightarrow> c);
          c2 = (case color2 of None \<Rightarrow> drawn2 | Some c \<Rightarrow> c)
      in case Image_new RGBA (w, h) (fst c1, fst (snd c1), snd (snd c1), 255) of
           Inl e \<Rightarrow> Inl e
         | Inr gradient \<Rightarrow> Inr (fold (gradient_column c1 c2 w h) [0 .. w - 1] gradient))"

definition valid_rgb :: "rgb \<Rightarrow> bool" where
  "valid_rgb c =
     (case c of (r, g, b) \<Rightarrow> 0 \<le> r \<and> r \<le> 255 \<and> 0 \<le> g \<and> g \<le> 255 \<and> 0 \<le> b \<and> b \<le> 255)"

section \<open>Pasting and compositing\<close>

text \<open>
  \<open>dst.paste(src, box)\<close> converts \<open>src\<close> to the mode of \<open>dst\<close> (here always RGBA): an
  RGB pixel becomes opaque, any other mode goes through PIL's conversion \<open>to_rgba\<close>.
\<close>

definition as_rgba :: "(image \<Rightarrow> image) \<Rightarrow> image \<Rightarrow> image" where
  "as_rgba to_rgba img =
     (if mode img = RGBA then img
      else if mode img = RGB then
        img\<lparr>mode := RGBA, data := (\<lambda>p. case data img p of (r, g, b, _) \<Rightarrow> (r, g, b, 255))\<rparr>
      else to_rgba img)"

definition in_box :: "int \<times> int \<Rightarrow> image \<Rightarrow> int \<times> int \<Rightarrow> bool" where
  "in_box box src p =
     (case box of (bx, by) \<Rightarrow> case p of (px, py) \<Rightarrow>
        bx \<le> px \<and> px < bx + width src \<and> by \<le> py \<and> py < by + height src)"

text \<open>Without a mask the region of the box is overwritten.\<close>

definition paste :: "(image \<Rightarrow> image) \<Rightarrow> image \<Rightarrow> image \<Rightarrow> int \<times> int \<Rightarrow> image" where
  "paste to_rgba dst src box =
     dst\<lparr>data := (\<lambda>p.
        if in_box box src p then data (as_rgba to_rgba src) (fst p - fst box, snd p - snd box)
        else data dst p)\<rparr>"

text \<open>
  With an RGBA mask every channel is blended by the mask's alpha \<open>m\<close>:
  \<open>(dst * (255 - m) + src * m) / 255\<close>, rounded the way PIL does it, by shifts.
\<close>

definition shift255 :: "int \<Rightarrow> int" where
  "shift255 a = (a div 256 + a) div 256"

definition blend :: "int \<Rightarrow> int \<Rightarrow> int \<Rightarrow> int" where
  "blend m c_dst c_src = shift255 (c_dst * (255 - m) + c_src * m + 128)"

definition blend_pixel :: "int \<Rightarrow> rgba \<Rightarrow> rgba \<Rightarrow> rgba" where
  "blend_pixel m d s =
     (case d of (dr, dg, db, da) \<Rightarrow> case s of (sr, sg, sb, sa) \<Rightarrow>
        (blend m dr sr, blend m dg sg, blend m db sb, blend m da sa))"

definition paste_mask ::
  "(image \<Rightarrow> image) \<Rightarrow> image \<Rightarrow> image \<Rightarrow> int \<times> int \<Rightarrow> image \<Rightarrow> image" where
  "paste_mask to_rgba dst src box msk =
     dst\<lparr>data := (\<lambda>p.
        if in_box box src p then
          (let q = (fst p - fst box, snd p - snd box)
           in blend_pixel (snd (snd (snd (data msk q)))) (data dst p)
                (data (as_rgba to_rgba src) q))
        else data dst p)\<rparr>"

text \<open>
  \<open>Image.alpha_composite(im1, im2)\<close> puts \<open>im2\<close> over \<open>im1\<close>. Both must be RGBA and of the
  same size (ValueError otherwise). PIL computes each pixel in integers with 7 extra bits
  of precision; where the upper pixel is fully transparent the lower one is copied.
\<close>

definition composite_pixel :: "rgba \<Rightarrow> rgba \<Rightarrow> rgba" where
  "composite_pixel d s =
     (case d of (dr, dg, db, da) \<Rightarrow> case s of (sr, sg, sb, sa) \<Rightarrow>
        if sa = 0 then d
        else
          (let outa255 = sa * 255 + da * (255 - sa);
               coef1 = sa * 255 * 255 * 128 div outa255;
               coef2 = 255 * 128 - coef1
           in (shift255 (sr * coef1 + dr * coef2 + 128 * 128) div 128,
               shift255 (sg * coef1 + dg * coef2 + 128 * 128) div 128,
               shift255 (sb * coef1 + db * coef2 + 128 * 128) div 128,
               shift255 (outa255 + 128))))"

definition alpha_composite :: "image \<Rightarrow> image \<Rightarrow> exn + image" where
  "alpha_composite im1 im2 =
     (if mode im1 \<noteq> RGBA \<or> mode im2 \<noteq> RGBA \<or> width im1 \<noteq> width im2 \<or> height im1 \<noteq> height im2
      then Inl ValueError
      else Inr (im1\<lparr>data := (\<lambda>p. composite_pixel (data im1 p) (data im2 p))\<rparr>))"

text \<open>
  \<open>img.filter(ImageFilter.GaussianBlur(radius))\<close> returns an image of the same mode and
  size. What the blur does to the pixels is the parameter \<open>blur\<close>.
\<close>

definition gaussian_filter ::
  "(int \<Rightarrow> image \<Rightarrow> int \<times> int \<Rightarrow> rgba) \<Rightarrow> int \<Rightarrow> image \<Rightarrow> image" where
  "gaussian_filter blur radius img = img\<lparr>data := blur radius img\<rparr>"

section \<open>add\_shadow\<close>

text \<open>
  The first half of \<open>add_shadow\<close>: the transparent canvas, enlarged by the offset and
  twice the blur radius, with the shadow layer (a new image of the input's size, filled
  with the shadow colour) pasted at \<open>(blur_radius + offset[0], blur_radius + offset[1])\<close>.
\<close>

definition shadow_canvas ::
  "(image \<Rightarrow> image) \<Rightarrow> image \<Rightarrow> int \<times> int \<Rightarrow> rgba \<Rightarrow> int \<Rightarrow> exn + image" where
  "shadow_canvas to_rgba img offset shadow_color blur_radius =
     (let shadow_width = width img + fst offset + blur_radius * 2;
          shadow_height = height img + snd offset + blur_radius * 2
      in case Image_new RGBA (shadow_width, shadow_height) (0, 0, 0, 0) of
           Inl e \<Rightarrow> Inl e
         | Inr shadow \<Rightarrow>
             (case Image_new RGBA (width img, height img) shadow_color of
                Inl e \<Rightarrow> Inl e
              | Inr shadow_layer \<Rightarrow>
                  Inr (paste to_rgba shadow shadow_layer
                         (blur_radius + fst offset, blur_radius + snd offset))))"

text \<open>
  The second half: the canvas is blurred, the input is pasted at
  \<open>(blur_radius, blur_radius)\<close> on a transparent image of the same size, masked by itself
  when its mode is RGBA, and that image is composited over the blurred shadow.
\<close>

definition add_shadow ::
  "(int \<Rightarrow> image \<Rightarrow> int \<times> int \<Rightarrow> rgba) \<Rightarrow> (image \<Rightarrow> image) \<Rightarrow>
     image \<Rightarrow> int \<times> int \<Rightarrow> rgba \<Rightarrow> int \<Rightarrow> exn + image" where
  "add_shadow blur to_rgba img offset shadow_color blur_radius =
     (case shadow_canvas to_rgba img offset shadow_color blur_radius of
        Inl e \<Rightarrow> Inl e
      | Inr painted \<Rightarrow>
          (let shadow = gaussian_filter blur blur_radius painted
           in case Image_new RGBA (width shadow, height shadow) (0, 0, 0, 0) of
                Inl e \<Rightarrow> Inl e
              | Inr result \<Rightarrow>
                  alpha_composite shadow
                    (if mode img = RGBA
                     then paste_mask to_rgba result img (blur_radius, blur_radius) img
                     else paste to_rgba result img (blur_radius, blur_radius))))"

section \<open>Discovering and ordering the poster files\<close>

text \<open>
  Strings are lists of characters. \<open>str.lower\<close> is modelled on ASCII letters;
  \<open>s.endswith(t)\<close> compares the last \<open>len(t)\<close> characters.
\<close>

definition lower_char :: "char \<Rightarrow> char" where
  "lower_char c =
     (if 65 \<le> (of_char c :: nat) \<and> (of_char c :: nat) \<le> 90 then char_of ((of_char c :: nat) + 32) else c)"

definition lower :: "string \<Rightarrow> string" where
  "lower s = map lower_char s"

definition endswith :: "string \<Rightarrow> string \<Rightarrow> bool" where
  "endswith s t = (length t \<le> length s \<and> drop (length s - length t) s = t)"

text \<open>\<open>s.rfind(c)\<close>: the index of the last occurrence of \<open>c\<close>, or nothing.\<close>

fun rfind :: "char \<Rightarrow> string \<Rightarrow> nat option" where
  "rfind c [] = None"
| "rfind c (x # xs) =
     (case rfind c xs of
        Some i \<Rightarrow> Some (Suc i)
      | None \<Rightarrow> if x = c then Some 0 else None)"

text \<open>
  \<open>os.path.join\<close>, \<open>os.path.basename\<close> and the first component of \<open>os.path.splitext\<close>
  (POSIX): the extension starts at the last dot of the last path component, unless only
  dots precede it there.
\<close>

definition join :: "string \<Rightarrow> string \<Rightarrow> string" where
  "join a b =
     (if b \<noteq> [] \<and> hd b = CHR ''/'' then b
      else if a = [] \<or> last a = CHR ''/'' then a @ b
      else a @ ''/'' @ b)"

definition basename :: "string \<Rightarrow> string" where
  "basename p = (case rfind (CHR ''/'') p of None \<Rightarrow> p | Some i \<Rightarrow> drop (Suc i) p)"

definition splitext_stem :: "string \<Rightarrow> string" where
  "splitext_stem p =
     (let start = (case rfind (CHR ''/'') p of None \<Rightarrow> 0 | Some i \<Rightarrow> Suc i)
      in case rfind (CHR ''.'') p of
           None \<Rightarrow> p
         | Some d \<Rightarrow>
             if start \<le> d \<and> (\<exists>c \<in> set (take (d - start) (drop start p)). c \<noteq> CHR ''.'')
             then take d p else p)"

definition supported_formats :: "string list" where
  "supported_formats = [''.jpg'', ''.jpeg'', ''.png'', ''.bmp'', ''.gif'', ''.webp'']"

definition custom_order :: string where
  "custom_order = ''315426987''"

text \<open>
  \<open>order_map = {num: index for index, num in enumerate(custom_order)}\<close>: the keys are the
  one-character strings of the priority string; a later entry would replace an earlier one.
\<close>

definition order_map :: "string \<rightharpoonup> nat" where
  "order_map = fold (\<lambda>(idx, num) m. m([num] \<mapsto> idx)) (enumerate 0 custom_order) Map.empty"

text \<open>\<open>order_map[key]\<close> raises KeyError for a missing key.\<close>

definition order_map_get :: "string \<Rightarrow> exn + nat" where
  "order_map_get k = (case order_map k of None \<Rightarrow> Inl KeyError | Some i \<Rightarrow> Inr i)"

text \<open>
  \<open>sorted(xs, key=k)\<close>: the keys of all elements are computed first, and the first
  exception raised by a key ends the call; the sort is stable and ascending.
\<close>

fun first_error :: "(exn + 'a) list \<Rightarrow> exn option" where
  "first_error [] = None"
| "first_error (Inl e # _) = Some e"
| "first_error (Inr _ # rs) = first_error rs"

definition sorted_by_key :: "('a \<Rightarrow> exn + nat) \<Rightarrow> 'a list \<Rightarrow> exn + 'a list" where
  "sorted_by_key k xs =
     (case first_error (map k xs) of
        Some e \<Rightarrow> Inl e
      | None \<Rightarrow> Inr (sort_key (\<lambda>x. case k x of Inr i \<Rightarrow> i | Inl _ \<Rightarrow> 0) xs))"

text \<open>
  The list comprehension and the sort of \<open>gen_poster_workflow\<close>. \<open>listing\<close> is the result
  of \<open>os.listdir(poster_folder)\<close> and \<open>isfile\<close> is \<open>os.path.isfile\<close>.
\<close>

definition poster_key :: "string \<Rightarrow> exn + nat" where
  "poster_key x = order_map_get (splitext_stem (basename x))"

definition accepted :: "(string \<Rightarrow> bool) \<Rightarrow> string \<Rightarrow> string \<Rightarrow> bool" where
  "accepted isfile poster_folder f =
     (isfile (join poster_folder f) \<and>
      (\<exists>fmt \<in> set supported_formats. endswith (lower f) fmt) \<and>
      order_map (splitext_stem f) \<noteq> None)"

definition poster_files_of :: "(string \<Rightarrow> bool) \<Rightarrow> string \<Rightarrow> string list \<Rightarrow> exn + string list" where
  "poster_files_of isfile poster_folder listing =
     sorted_by_key poster_key
       (map (join poster_folder) (filter (accepted isfile poster_folder) listing))"

text \<open>
  \<open>[poster_files[i : i + rows] for i in range(0, len(poster_files), rows)]\<close>. The grid
  sizes are counts; \<open>range\<close> raises ValueError for a step of zero.
\<close>

definition range_step :: "nat \<Rightarrow> nat \<Rightarrow> exn + nat list" where
  "range_step n step =
     (if step = 0 then Inl ValueError
      else Inr (map (\<lambda>k. k * step) [0 ..< (n + step - 1) div step]))"

definition grouped_posters :: "nat \<Rightarrow> 'a list \<Rightarrow> exn + 'a list list" where
  "grouped_posters rows poster_files =
     (case range_step (length poster_files) rows of
        Inl e \<Rightarrow> Inl e
      | Inr starts \<Rightarrow> Inr (map (\<lambda>i. take rows (drop i poster_files)) starts))"

text \<open>
  The column loop stops at \<open>col_index >= cols\<close>: the groups it processes, each with its
  index.
\<close>

definition processed_columns :: "nat \<Rightarrow> 'a list list \<Rightarrow> (nat \<times> 'a list) list" where
  "processed_columns cols groups = takeWhile (\<lambda>(col_index, _). \<not> cols \<le> col_index) (enumerate 0 groups)"

section \<open>Column canvas and rotation canvas\<close>

text \<open>
  The layout arithmetic of the column loop. All sizes are Python integers;
  \<open>//\<close> is the floor division. \<open>math.sqrt\<close> and the product with \<open>1.5\<close> are computed on
  exact reals, and \<open>int(...)\<close> truncates.
\<close>

definition column_height_of :: "int \<Rightarrow> int \<Rightarrow> int \<Rightarrow> int" where
  "column_height_of rows cell_height margin = rows * cell_height + (rows - 1) * margin"

definition shadow_extra_width :: int where
  "shadow_extra_width = 20 + 20 * 2"

definition shadow_extra_height :: int where
  "shadow_extra_height = 20 + 20 * 2"

text \<open>The size of \<open>column_image\<close>, the transparent canvas of one column.\<close>

definition column_canvas_size :: "int \<Rightarrow> int \<Rightarrow> int \<times> int" where
  "column_canvas_size cell_width column_height =
     (cell_width + shadow_extra_width, column_height + shadow_extra_height)"

definition rotation_canvas_size :: "int \<Rightarrow> int \<Rightarrow> int" where
  "rotation_canvas_size cell_width column_height =
     py_int (sqrt (of_int ((cell_width + shadow_extra_width)\<^sup>2 +
                           (column_height + shadow_extra_height)\<^sup>2)) * 1.5)"

definition paste_x :: "int \<Rightarrow> int \<Rightarrow> int" where
  "paste_x cell_width column_height =
     (rotation_canvas_size cell_width column_height - cell_width) div 2"

definition paste_y :: "int \<Rightarrow> int \<Rightarrow> int" where
  "paste_y cell_width column_height =
     (rotation_canvas_size cell_width column_height - column_height) div 2"

section \<open>The English title: font size and lines\<close>

text \<open>
  The English title is a Python \<open>str\<close>: the list of its code points, so that \<open>len\<close> counts
  characters and every Unicode character is one element. \<open>codes\<close> gives the code points
  of an ASCII literal.
\<close>

type_synonym unicode = "nat list"


text \<open>
  \<open>str.split()\<close> without argument splits at runs of whitespace and yields no empty token;
  \<open>str.split(" ")\<close> splits at every single space (code point 32) and keeps empty tokens.
  Whitespace is what \<open>str.isspace\<close> accepts: the space, \<open>\t \n \v \f \r\<close>, the separators
  \<open>0x1c .. 0x1f\<close>, and beyond ASCII \<open>U+0085\<close>, \<open>U+00A0\<close>, \<open>U+1680\<close>, \<open>U+2000 .. U+200A\<close>,
  \<open>U+2028\<close>, \<open>U+2029\<close>, \<open>U+202F\<close>, \<open>U+205F\<close> and \<open>U+3000\<close>.
\<close>

definition is_space :: "nat \<Rightarrow> bool" where
  "is_space n =
     ((9 \<le> n \<and> n \<le> 13) \<or> (28 \<le> n \<and> n \<le> 32) \<or> n = 133 \<or> n = 160 \<or> n = 5760 \<or>
      (8192 \<le> n \<and> n \<le> 8202) \<or> n = 8232 \<or> n = 8233 \<or> n = 8239 \<or> n = 8287 \<or> n = 12288)"

fun split_ws_from :: "unicode \<Rightarrow> unicode \<Rightarrow> unicode list" where
  "split_ws_from cur [] = (if cur = [] then [] else [cur])"
| "split_ws_from cur (c # cs) =
     (if is_space c then (if cur = [] then split_ws_from [] cs else cur # split_ws_from [] cs)
      else split_ws_from (cur @ [c]) cs)"

definition split_ws :: "unicode \<Rightarrow> unicode list" where
  "split_ws s = split_ws_from [] s"

fun split_on_from :: "nat \<Rightarrow> unicode \<Rightarrow> unicode \<Rightarrow> unicode list" where
  "split_on_from sep cur [] = [cur]"
| "split_on_from sep cur (c # cs) =
     (if c = sep then cur # split_on_from sep [] cs else split_on_from sep (cur @ [c]) cs)"

definition split_on :: "nat \<Rightarrow> unicode \<Rightarrow> unicode list" where
  "split_on sep s = split_on_from sep [] s"



text \<open>\<open>max(xs)\<close> of a list: ValueError when the list is empty.\<close>

definition py_max :: "nat list \<Rightarrow> exn + nat" where
  "py_max xs = (case xs of [] \<Rightarrow> Inl ValueError | x # rest \<Rightarrow> Inr (fold max rest x))"

text \<open>
  The font size computed in \<open>gen_poster_workflow\<close> for a non-empty English name:
  \<open>word_count\<close>, \<open>max_chars_per_line\<close>, and the shrink formula with its lower limit.
  \<open>**\<close> on a positive float base is the real power.
\<close>

definition base_font_size :: real where
  "base_font_size = 50"

definition shrink_formula :: "nat \<Rightarrow> nat \<Rightarrow> real" where
  "shrink_formula max_chars_per_line word_count =
     base_font_size * (10 / real (max max_chars_per_line (word_count * 3))) powr 0.8"

definition english_font_size :: "unicode \<Rightarrow> exn + real" where
  "english_font_size library_eng_name =
     (let word_count = length (split_ws library_eng_name)
      in case py_max (map length (split_ws library_eng_name)) of
           Inl e \<Rightarrow> Inl e
         | Inr max_chars_per_line \<Rightarrow>
             if 10 < max_chars_per_line \<or> 3 < word_count
             then Inr (max (shrink_formula max_chars_per_line word_count) 30)
             else Inr base_font_size)"

text \<open>
  \<open>draw_multiline_text_on_image\<close>: what it draws and the line count it returns. A drawn
  text is the string with its position; the font size is the integer passed by the caller.
\<close>

definition multiline_texts ::
  "unicode \<Rightarrow> real \<times> real \<Rightarrow> int \<Rightarrow> int \<Rightarrow> (unicode \<times> real \<times> real) list \<times> nat" where
  "multiline_texts txt position font_size line_spacing =
     (let lines = split_on 32 txt
      in if length lines \<le> 1 then ([(txt, position)], 1)
         else (map (\<lambda>(i, line). (line, fst position,
                       snd position + real i * of_int (font_size + line_spacing)))
                 (enumerate 0 lines),
               length lines))"

text \<open>
  The English branch of the workflow up to the accent block: the font size, the lines
  drawn with \<open>int(font_size)\<close> at \<open>(124.68, 624.55)\<close> with line spacing 5, the line count and
  the height of the colour block.
\<close>

record english_title =
  font_size :: real
  applied_size :: int
  drawn :: "(unicode \<times> real \<times> real) list"
  line_count :: nat
  color_block_height :: int

definition english_title_of :: "unicode \<Rightarrow> exn + english_title" where
  "english_title_of library_eng_name =
     (case english_font_size library_eng_name of
        Inl e \<Rightarrow> Inl e
      | Inr fs \<Rightarrow>
          (let line_spacing = 5;
               (texts, n) = multiline_texts library_eng_name (124.68, 624.55) (py_int fs) line_spacing
           in Inr \<lparr>font_size = fs, applied_size = py_int fs, drawn = texts, line_count = n,
                   color_block_height = 55 + (int n - 1) * (py_int fs + line_spacing)\<rparr>))"

section \<open>get\_poster\_primary\_color\<close>

text \<open>
  What the function returns: on the normal path a tuple of two colours, on the fallback
  paths one colour, a tuple of four integers. The caller unpacks the result into two
  names, which raises ValueError for a tuple of four.
\<close>

datatype color_result = ColorPair rgba rgba | SingleColor rgba

definition unpack_two :: "color_result \<Rightarrow> exn + (rgba \<times> rgba)" where
  "unpack_two res = (case res of ColorPair c1 c2 \<Rightarrow> Inr (c1, c2) | SingleColor _ \<Rightarrow> Inl ValueError)"

definition default_color :: rgba where
  "default_color = (150, 100, 50, 255)"

text \<open>
  The first filter: a pixel is skipped when its alpha is below 200 or its brightness
  \<open>(r + g + b) / 3\<close> is below 30 or above 220; a kept pixel is stored fully opaque.
\<close>

definition brightness :: "rgba \<Rightarrow> real" where
  "brightness p = (case p of (r, g, b, a) \<Rightarrow> of_int (r + g + b) / 3)"

definition kept :: "rgba \<Rightarrow> bool" where
  "kept p = (case p of (r, g, b, a) \<Rightarrow> \<not> a < 200 \<and> \<not> (brightness p < 30 \<or> 220 < brightness p))"

definition opaque :: "rgba \<Rightarrow> rgba" where
  "opaque p = (case p of (r, g, b, a) \<Rightarrow> (r, g, b, 255))"

definition first_filter :: "rgba list \<Rightarrow> rgba list" where
  "first_filter pixels = map opaque (filter kept pixels)"

text \<open>The second, weaker filter: \<open>[(p[0], p[1], p[2], 255) for p in pixels if p[3] > 100]\<close>.\<close>

definition second_filter :: "rgba list \<Rightarrow> rgba list" where
  "second_filter pixels = map opaque (filter (\<lambda>p. 100 < snd (snd (snd p))) pixels)"

text \<open>
  \<open>Counter(xs)\<close> counts the elements, keeping the keys in the order of their first
  occurrence. \<open>most_common(n)\<close> is the first \<open>n\<close> entries of the stable sort by descending
  count.
\<close>

fun counter_add :: "'a \<Rightarrow> ('a \<times> nat) list \<Rightarrow> ('a \<times> nat) list" where
  "counter_add x [] = [(x, 1)]"
| "counter_add x ((k, c) # rest) =
     (if k = x then (k, Suc c) # rest else (k, c) # counter_add x rest)"

definition Counter :: "'a list \<Rightarrow> ('a \<times> nat) list" where
  "Counter xs = fold counter_add xs []"

definition most_common :: "nat \<Rightarrow> ('a \<times> nat) list \<Rightarrow> ('a \<times> nat) list" where
  "most_common n counts = take n (sort_key (\<lambda>(k, c). - int c) counts)"

text \<open>\<open>xs[i]\<close> on a list: IndexError outside.\<close>

definition item :: "'a list \<Rightarrow> nat \<Rightarrow> exn + 'a" where
  "item xs i = (if i < length xs then Inr (xs ! i) else Inl IndexError)"

text \<open>
  The try block after the pixels are loaded. The average at the end is what the source
  computes when \<open>common_colors\<close> is empty.
\<close>

definition average_color :: "rgba list \<Rightarrow> rgba" where
  "average_color ps =
     (sum_list (map fst ps) div int (length ps),
      sum_list (map (fst \<circ> snd) ps) div int (length ps),
      sum_list (map (fst \<circ> snd \<circ> snd) ps) div int (length ps), 255)"

definition primary_color_of :: "rgba list \<Rightarrow> exn + color_result" where
  "primary_color_of pixels =
     (let filtered_pixels = first_filter pixels;
          filtered_pixels = (if filtered_pixels = [] then second_filter pixels else filtered_pixels)
      in if filtered_pixels = [] then Inr (SingleColor default_color)
         else
           (let common_colors = most_common 5 (Counter filtered_pixels)
            in if common_colors \<noteq> [] then
                 (case item common_colors 0 of
                    Inl e \<Rightarrow> Inl e
                  | Inr first \<Rightarrow>
                      (case item common_colors 1 of
                         Inl e \<Rightarrow> Inl e
                       | Inr second \<Rightarrow> Inr (ColorPair (fst first) (fst second))))
               else Inr (SingleColor (average_color filtered_pixels))))"

text \<open>
  \<open>get_poster_primary_color\<close>: \<open>loaded\<close> is the outcome of opening the file, resizing it to
  100 by 150, converting it to RGBA and reading its pixels. Every exception is caught,
  logged (the second component) and replaced by the default colour.
\<close>

definition get_poster_primary_color :: "exn + rgba list \<Rightarrow> color_result \<times> bool" where
  "get_poster_primary_color loaded =
     (case (case loaded of Inl e \<Rightarrow> Inl e | Inr pixels \<Rightarrow> primary_color_of pixels) of
        Inl e \<Rightarrow> (SingleColor default_color, True)
      | Inr res \<Rightarrow> (res, False))"

section \<open>gen\_poster\_workflow\<close>

text \<open>
  The configuration module is not part of the source file: its values are a parameter.
  \<open>TEMPLATE_MAPPING\<close> is a list of dictionaries in which each of the three keys may be
  missing.
\<close>

record template =
  t_library_name :: "string option"
  t_library_ch_name :: "string option"
  t_library_eng_name :: "unicode option"

record config =
  SERVER_NAME :: string
  POSTER_FOLDER :: string
  OUTPUT_FOLDER :: string
  ROWS :: nat
  COLS :: nat
  MARGIN :: int
  CORNER_RADIUS :: int
  ROTATION_ANGLE :: real
  START_X :: int
  START_Y :: int
  COLUMN_SPACING :: int
  SAVE_COLUMNS :: bool
  CELL_WIDTH :: int
  CELL_HEIGHT :: int
  TEMPLATE_MAPPING :: "template list"

text \<open>
  The outside world of one call: what the file system, PIL and the random generator answer.
  An operation without a result is \<open>None\<close> when it succeeds and the exception otherwise.
  The paths of the saved images are named by what is saved.
\<close>

datatype save_target = ColumnOriginal nat | ColumnRotated nat | Output string

record world =
  w_load_pixels :: "string \<Rightarrow> exn + rgba list"
  w_exists :: "string \<Rightarrow> bool"
  w_makedirs :: "string \<Rightarrow> exn option"
  w_listdir :: "string \<Rightarrow> exn + string list"
  w_isfile :: "string \<Rightarrow> bool"
  w_poster :: "string \<Rightarrow> exn option"
  w_rotate :: "nat \<Rightarrow> exn option"
  w_place :: "nat \<Rightarrow> exn option"
  w_save :: "save_target \<Rightarrow> exn option"
  w_open_image :: "string \<Rightarrow> exn + image"
  w_to_rgba :: "image \<Rightarrow> image"
  w_rnd :: "nat \<Rightarrow> int"
  w_draw_text :: "string \<Rightarrow> exn option"

text \<open>
  A computation returns a value or raises, and writes log lines on the way. A log line is
  its level and a tag for its message.
\<close>

datatype level = INFO | DEBUG | ERROR

type_synonym 'a run = "(exn + 'a) \<times> (level \<times> string) list"

definition ret :: "'a \<Rightarrow> 'a run" where
  "ret x = (Inr x, [])"

definition lift :: "exn + 'a \<Rightarrow> 'a run" where
  "lift r = (r, [])"

definition attempt :: "exn option \<Rightarrow> unit run" where
  "attempt r = (case r of None \<Rightarrow> (Inr (), []) | Some e \<Rightarrow> (Inl e, []))"

definition logger :: "level \<Rightarrow> string \<Rightarrow> unit run" where
  "logger l msg = (Inr (), [(l, msg)])"

definition bind :: "'a run \<Rightarrow> ('a \<Rightarrow> 'b run) \<Rightarrow> 'b run" where
  "bind m k =
     (case m of
        (Inl e, l) \<Rightarrow> (Inl e, l)
      | (Inr x, l) \<Rightarrow> (case k x of (r, l') \<Rightarrow> (r, l @ l')))"

text \<open>\<open>try: m except Exception as e: h e\<close>.\<close>

definition try_except :: "'a run \<Rightarrow> (exn \<Rightarrow> 'a run) \<Rightarrow> 'a run" where
  "try_except m h =
     (case m of
        (Inl e, l) \<Rightarrow> (case h e of (r, l') \<Rightarrow> (r, l @ l'))
      | (Inr x, l) \<Rightarrow> (Inr x, l))"

text \<open>A \<open>for\<close> loop whose body may raise.\<close>

fun for_each :: "('a \<Rightarrow> unit run) \<Rightarrow> 'a list \<Rightarrow> unit run" where
  "for_each body [] = ret ()"
| "for_each body (x # xs) = bind (body x) (\<lambda>_. for_each body xs)"

text \<open>\<open>os.path.dirname\<close> (POSIX).\<close>

definition dirname :: "string \<Rightarrow> string" where
  "dirname p =
     (case rfind (CHR ''/'') p of
        None \<Rightarrow> []
      | Some i \<Rightarrow>
          (let head = take (Suc i) p
           in if head \<noteq> [] \<and> (\<exists>c \<in> set head. c \<noteq> CHR ''/'')
              then rev (dropWhile (\<lambda>c. c = CHR ''/'') (rev head)) else head))"

text \<open>
  Line 657: the two colours of the background. \<open>get_poster_primary_color\<close> logs its own
  failure; the unpacking into \<open>color1, color2\<close> raises ValueError on a single colour.
\<close>

definition sample_colors :: "world \<Rightarrow> string \<Rightarrow> (rgba \<times> rgba) run" where
  "sample_colors w first_image_path =
     (case get_poster_primary_color (w_load_pixels w first_image_path) of
        (res, logged) \<Rightarrow>
          bind (if logged then logger ERROR ''primary color'' else ret ())
            (\<lambda>_. lift (unpack_two res)))"

definition rgb_of :: "rgba \<Rightarrow> rgb" where
  "rgb_of c = (case c of (r, g, b, a) \<Rightarrow> (r, g, b))"

text \<open>Lines 663 to 669: the output directory and the directory of the column images.\<close>

definition ensure_dirs :: "config \<Rightarrow> world \<Rightarrow> string \<Rightarrow> unit run" where
  "ensure_dirs cfg w output_path =
     (let output_dir = dirname output_path;
          columns_dir = join output_dir ''columns''
      in bind (if \<not> w_exists w output_dir then attempt (w_makedirs w output_dir) else ret ())
           (\<lambda>_. if SAVE_COLUMNS cfg \<and> \<not> w_exists w columns_dir
                 then attempt (w_makedirs w columns_dir) else ret ()))"

text \<open>Lines 679 to 689: the listing of the poster folder, filtered and sorted.\<close>

definition find_posters :: "world \<Rightarrow> string \<Rightarrow> string list run" where
  "find_posters w poster_folder =
     bind (lift (w_listdir w poster_folder))
       (\<lambda>listing. lift (poster_files_of (w_isfile w) poster_folder listing))"

text \<open>
  Lines 736 to 796: one poster of a column. Opening, resizing, masking, shadowing and
  pasting it is one outcome of the world; an exception is logged and the loop goes on.
\<close>

definition place_poster :: "world \<Rightarrow> string \<Rightarrow> unit run" where
  "place_poster w poster_path =
     try_except (attempt (w_poster w poster_path)) (\<lambda>e. logger ERROR ''poster skipped'')"

text \<open>
  Lines 842 to 854: where the rotated column is pasted on the background, from the size
  of the rotated image.
\<close>

definition final_position :: "config \<Rightarrow> nat \<Rightarrow> int \<times> int \<Rightarrow> int \<times> int" where
  "final_position cfg col_index rotated_size =
     (let column_height = column_height_of (int (ROWS cfg)) (CELL_HEIGHT cfg) (MARGIN cfg);
          column_x = START_X cfg + int col_index * COLUMN_SPACING cfg;
          column_center_y = START_Y cfg + column_height div 2;
          column_center_x = column_x;
          column_center_x = (if col_index = 1 then column_center_x + (CELL_WIDTH cfg - 50)
                             else if col_index = 2 then column_center_x + (CELL_WIDTH cfg * 2 - 40)
                             else column_center_x);
          column_center_y = (if col_index = 2 then column_center_y + (- 155) else column_center_y)
      in (column_center_x - fst rotated_size div 2 + CELL_WIDTH cfg div 2,
          column_center_y - snd rotated_size div 2))"

text \<open>
  Lines 714 to 857: one column. The column canvas and the rotation canvas are created with
  the sizes computed above; pasting and rotating (with the corner radius and the rotation
  angle of the configuration), saving and placing are outcomes of the world.
\<close>

definition build_column :: "config \<Rightarrow> world \<Rightarrow> nat \<times> string list \<Rightarrow> unit run" where
  "build_column cfg w col =
     (case col of (col_index, column_posters) \<Rightarrow>
        (let column_height = column_height_of (int (ROWS cfg)) (CELL_HEIGHT cfg) (MARGIN cfg);
             side = rotation_canvas_size (CELL_WIDTH cfg) column_height
         in bind (lift (Image_new RGBA (column_canvas_size (CELL_WIDTH cfg) column_height) (0, 0, 0, 0)))
              (\<lambda>column_image.
            bind (for_each (place_poster w) column_posters) (\<lambda>_.
            bind (if SAVE_COLUMNS cfg
                  then bind (attempt (w_save w (ColumnOriginal (col_index + 1))))
                         (\<lambda>_. logger DEBUG ''column saved'')
                  else ret ()) (\<lambda>_.
            bind (lift (Image_new RGBA (side, side) (0, 0, 0, 0))) (\<lambda>rotation_canvas.
            bind (attempt (w_rotate w col_index)) (\<lambda>_.
            bind (if SAVE_COLUMNS cfg
                  then bind (attempt (w_save w (ColumnRotated (col_index + 1))))
                         (\<lambda>_. logger DEBUG ''rotated column saved'')
                  else ret ()) (\<lambda>_.
            attempt (w_place w col_index)))))))))"

text \<open>Lines 860 to 870: the accent colour.\<close>

definition accent_color :: "world \<Rightarrow> string list \<Rightarrow> rgba run" where
  "accent_color w poster_files =
     (if poster_files \<noteq> [] then
        (case get_random_color (w_to_rgba w) (w_rnd w) (w_open_image w (hd poster_files)) of
           (c, logged) \<Rightarrow> bind (if logged then logger ERROR ''random color'' else ret ()) (\<lambda>_. ret c))
      else ret (fallback_channel (w_rnd w 0), fallback_channel (w_rnd w 1),
                fallback_channel (w_rnd w 2), 255))"

text \<open>
  Lines 873 to 888: the first template whose \<open>library_name\<close> is the name gives the
  titles it has; without one the Chinese title is the name and the English one is empty.
  The English title, whose characters are counted and split, is the list of its code
  points.
\<close>

definition titles_of :: "config \<Rightarrow> string \<Rightarrow> string \<times> unicode" where
  "titles_of cfg name =
     (case find (\<lambda>t. t_library_name t = Some name) (TEMPLATE_MAPPING cfg) of
        None \<Rightarrow> (name, [])
      | Some matched_template \<Rightarrow>
          (case t_library_ch_name matched_template of None \<Rightarrow> name | Some s \<Rightarrow> s,
           case t_library_eng_name matched_template of None \<Rightarrow> [] | Some s \<Rightarrow> s))"

text \<open>Lines 891 to 949: the two titles and the colour block.\<close>

definition draw_titles :: "config \<Rightarrow> world \<Rightarrow> string \<Rightarrow> unit run" where
  "draw_titles cfg w name =
     (case titles_of cfg name of (library_ch_name, library_eng_name) \<Rightarrow>
        bind (attempt (w_draw_text w ''font/ch.ttf'')) (\<lambda>_.
          if library_eng_name \<noteq> [] then
            bind (lift (english_font_size library_eng_name)) (\<lambda>fs.
            bind (logger DEBUG ''word count'') (\<lambda>_.
            bind (logger DEBUG ''font size'') (\<lambda>_.
            bind (attempt (w_draw_text w ''font/en.otf'')) (\<lambda>_.
            bind (lift (english_title_of library_eng_name)) (\<lambda>title.
            logger DEBUG ''color block height'')))))
          else ret ()))"

text \<open>The try block of \<open>gen_poster_workflow\<close>, lines 637 to 955.\<close>

definition gen_poster_workflow_body :: "config \<Rightarrow> world \<Rightarrow> string \<Rightarrow> bool run" where
  "gen_poster_workflow_body cfg w name =
     (let poster_folder = join (POSTER_FOLDER cfg) name;
          first_image_path = join poster_folder ''2.jpg'';
          output_path = join (OUTPUT_FOLDER cfg) (name @ ''.png'')
      in bind (logger INFO ''generating poster'') (\<lambda>_.
         bind (logger INFO ''----'') (\<lambda>_.
         bind (sample_colors w first_image_path) (\<lambda>colors.
         bind (lift (create_gradient_background (0, 0, 0) (0, 0, 0) 1920 1080
                       (Some (rgb_of (fst colors))) (Some (rgb_of (snd colors))))) (\<lambda>gradient_bg.
         bind (ensure_dirs cfg w output_path) (\<lambda>_.
         bind (find_posters w poster_folder) (\<lambda>poster_files.
           if poster_files = [] then
             bind (logger ERROR ''no supported image'') (\<lambda>_. ret False)
           else
             bind (lift (grouped_posters (ROWS cfg) (take (ROWS cfg * COLS cfg) poster_files)))
               (\<lambda>groups.
             bind (for_each (build_column cfg w) (processed_columns (COLS cfg) groups))
               (\<lambda>_.
             bind (accent_color w (take (ROWS cfg * COLS cfg) poster_files)) (\<lambda>random_color.
             bind (draw_titles cfg w name) (\<lambda>_.
             bind (attempt (w_save w (Output output_path))) (\<lambda>_.
             bind (logger INFO ''saved'') (\<lambda>_. ret True)))))))))))))"

text \<open>
  \<open>gen_poster_workflow\<close>: the try block with its handler, which logs the error and
  returns False.
\<close>

definition gen_poster_workflow :: "config \<Rightarrow> world \<Rightarrow> string \<Rightarrow> bool run" where
  "gen_poster_workflow cfg w name =
     try_except (gen_poster_workflow_body cfg w name)
       (\<lambda>e. bind (logger ERROR ''workflow failed'') (\<lambda>_. ret False))"

section \<open>Example configuration and worlds\<close>

definition example_config :: config where
  "example_config =
     \<lparr>SERVER_NAME = ''jellyfin'', POSTER_FOLDER = ''poster'', OUTPUT_FOLDER = ''output'',
      ROWS = 3, COLS = 3, MARGIN = 22, CORNER_RADIUS = 46, ROTATION_ANGLE = - 15.8,
      START_X = 835, START_Y = - 362, COLUMN_SPACING = 100, SAVE_COLUMNS = False,
      CELL_WIDTH = 410, CELL_HEIGHT = 610, TEMPLATE_MAPPING = []\<rparr>"

text \<open>A world in which no image can be opened and the poster folder holds one text file.\<close>

definition unreadable_world :: world where
  "unreadable_world =
     \<lparr>w_load_pixels = (\<lambda>p. Inl OSError), w_exists = (\<lambda>p. True), w_makedirs = (\<lambda>p. None),
      w_listdir = (\<lambda>p. Inr [''notes.txt'']), w_isfile = (\<lambda>p. True), w_poster = (\<lambda>p. Some OSError),
      w_rotate = (\<lambda>i. None), w_place = (\<lambda>i. None), w_save = (\<lambda>t. None),
      w_open_image = (\<lambda>p. Inl OSError), w_to_rgba = (\<lambda>i. i), w_rnd = (\<lambda>k. 0),
      w_draw_text = (\<lambda>f. None)\<rparr>"

text \<open>
  A world in which \<open>2.jpg\<close> is read as an image of two colours and the poster folder holds
  no image with a priority digit as its stem.
\<close>

definition empty_folder_world :: world where
  "empty_folder_world =
     \<lparr>w_load_pixels = (\<lambda>p. Inr [(200, 0, 0, 255), (200, 0, 0, 255), (0, 200, 0, 255)]),
      w_exists = (\<lambda>p. True), w_makedirs = (\<lambda>p. None),
      w_listdir = (\<lambda>p. Inr [''notes.txt'', ''10.jpg'']), w_isfile = (\<lambda>p. True),
      w_poster = (\<lambda>p. None), w_rotate = (\<lambda>i. None), w_place = (\<lambda>i. None),
      w_save = (\<lambda>t. None), w_open_image = (\<lambda>p. Inl OSError), w_to_rgba = (\<lambda>i. i),
      w_rnd = (\<lambda>k. 0), w_draw_text = (\<lambda>f. None)\<rparr>"

text \<open>
  A world with the nine posters \<open>1.jpg\<close> to \<open>9.jpg\<close> in which every operation succeeds.
\<close>

definition full_folder_world :: world where
  "full_folder_world =
     \<lparr>w_load_pixels = (\<lambda>p. Inr [(200, 0, 0, 255), (200, 0, 0, 255), (0, 200, 0, 255)]),
      w_exists = (\<lambda>p. False), w_makedirs = (\<lambda>p. None),
      w_listdir = (\<lambda>p. Inr [''1.jpg'', ''2.jpg'', ''3.jpg'', ''4.jpg'', ''5.jpg'', ''6.jpg'',
                               ''7.jpg'', ''8.jpg'', ''9.jpg'']),
      w_isfile = (\<lambda>p. True), w_poster = (\<lambda>p. None), w_rotate = (\<lambda>i. None),
      w_place = (\<lambda>i. None), w_save = (\<lambda>t. None),
      w_open_image = (\<lambda>p. Inr \<lparr>mode = RGB, width = 10, height = 10,
                                   data = (\<lambda>q. (200, 210, 7, 255))\<rparr>),
      w_to_rgba = (\<lambda>i. i), w_rnd = (\<lambda>k. 0), w_draw_text = (\<lambda>f. None)\<rparr>"

section \<open>Properties\<close>

lemma randint_range:
  "a \<le> b \<Longrightarrow> \<exists>v. randint s a b = Inr v \<and> a \<le> v \<and> v \<le> b"
proof -
  assume ab: "a \<le> b"
  then have pos: "0 < b - a + 1" by simp
  have "0 \<le> s mod (b - a + 1)" using pos by (rule pos_mod_sign)
  moreover have "s mod (b - a + 1) < b - a + 1" using pos by (rule pos_mod_bound)
  ultimately have "a \<le> a + s mod (b - a + 1)" "a + s mod (b - a + 1) \<le> b" by linarith+
  then show ?thesis using ab by (simp add: randint_def)
qed

lemma sample_point_inside:
  assumes "0 < width img" and "0 < height img"
  shows "\<exists>x y. sample_point rnd img = Inr (x, y) \<and> 0 \<le> x \<and> x < width img \<and> 0 \<le> y \<and> y < height img"
proof -
  have wx: "width img * 5 div 10 \<le> width img * 8 div 10" using assms(1) by simp
  have hy: "height img * 5 div 10 \<le> height img * 8 div 10" using assms(2) by simp
  obtain x where x: "randint (rnd 0) (width img * 5 div 10) (width img * 8 div 10) = Inr x"
    and xr: "width img * 5 div 10 \<le> x" "x \<le> width img * 8 div 10"
    using randint_range [OF wx] by blast
  obtain y where y: "randint (rnd 1) (height img * 5 div 10) (height img * 8 div 10) = Inr y"
    and yr: "height img * 5 div 10 \<le> y" "y \<le> height img * 8 div 10"
    using randint_range [OF hy] by blast
  have "0 \<le> x" "x < width img" using xr assms(1) by simp_all
  moreover have "0 \<le> y" "y < height img" using yr assms(2) by simp_all
  ultimately show ?thesis using x y by (simp add: sample_point_def)
qed

text \<open>
  C10. For an image opened in mode RGB, \<open>get_random_color\<close> returns the sampled pixel
  \<open>(r, g, b)\<close> as \<open>(r + 100, g + 50, b, 255)\<close>, without logging an error; when \<open>r > 155\<close>
  or \<open>g > 205\<close> the returned red or green channel exceeds 255 and the result is not a
  valid 8-bit RGBA tuple. An image in mode RGBA returns the sampled pixel unchanged, and
  an image in any other mode returns the unchanged pixel of its RGBA conversion.
\<close>

theorem get_random_color_rgb_shift:
  assumes "0 < width img" and "0 < height img" and "width (to_rgba img) = width img"
    and "height (to_rgba img) = height img"
  shows "\<exists>p r g b a r' g' b' a'.
           sample_point rnd img = Inr p \<and> data img p = (r, g, b, a) \<and>
           data (to_rgba img) p = (r', g', b', a') \<and>
           (mode img = RGB \<longrightarrow>
              get_random_color to_rgba rnd (Inr img) = ((r + 100, g + 50, b, 255), False) \<and>
              (155 < r \<longrightarrow> 255 < fst (fst (get_random_color to_rgba rnd (Inr img)))) \<and>
              (205 < g \<longrightarrow> 255 < fst (snd (fst (get_random_color to_rgba rnd (Inr img))))) \<and>
              (155 < r \<or> 205 < g \<longrightarrow>
                 \<not> valid_rgba (fst (get_random_color to_rgba rnd (Inr img))))) \<and>
           (mode img = RGBA \<longrightarrow>
              get_random_color to_rgba rnd (Inr img) = ((r, g, b, a), False)) \<and>
           (mode img = OtherMode \<longrightarrow>
              get_random_color to_rgba rnd (Inr img) = ((r', g', b', a'), False))"
proof -
  obtain x y where p: "sample_point rnd img = Inr (x, y)"
    and inside: "0 \<le> x" "x < width img" "0 \<le> y" "y < height img"
    using sample_point_inside [OF assms(1,2)] by blast
  obtain r g b a where d: "data img (x, y) = (r, g, b, a)"
    by (cases "data img (x, y)") auto
  obtain r' g' b' a' where d': "data (to_rgba img) (x, y) = (r', g', b', a')"
    by (cases "data (to_rgba img) (x, y)") auto
  have gp: "getpixel img (x, y) = Inr (r, g, b, a)"
    using inside d by (simp add: getpixel_def)
  have gp': "getpixel (to_rgba img) (x, y) = Inr (r', g', b', a')"
    using inside d' assms(3,4) by (simp add: getpixel_def)
  have rgb: "mode img = RGB \<Longrightarrow>
      get_random_color to_rgba rnd (Inr img) = ((r + 100, g + 50, b, 255), False)"
    using p gp by (simp add: get_random_color_def get_random_color_body_def)
  have rgba: "mode img = RGBA \<Longrightarrow>
      get_random_color to_rgba rnd (Inr img) = ((r, g, b, a), False)"
    using p gp by (simp add: get_random_color_def get_random_color_body_def)
  have other: "mode img = OtherMode \<Longrightarrow>
      get_random_color to_rgba rnd (Inr img) = ((r', g', b', a'), False)"
    using p gp' by (simp add: get_random_color_def get_random_color_body_def)
  show ?thesis
    using p d d' rgb rgba other by (auto simp: valid_rgba_def)
qed

theorem get_random_color_rgb_shift_witness:
  "get_random_color (\<lambda>i. i) (\<lambda>k. 0)
      (Inr \<lparr>mode = RGB, width = 10, height = 10, data = (\<lambda>p. (200, 210, 7, 255))\<rparr>)
     = ((300, 260, 7, 255), False) \<and>
   \<not> valid_rgba (fst (get_random_color (\<lambda>i. i) (\<lambda>k. 0)
      (Inr \<lparr>mode = RGB, width = 10, height = 10, data = (\<lambda>p. (200, 210, 7, 255))\<rparr>)))"
  using get_random_color_rgb_shift
    [of "\<lparr>mode = RGB, width = 10, height = 10, data = (\<lambda>p. (200, 210, 7, 255))\<rparr>"
        "\<lambda>i. i" "\<lambda>k. 0"]
  by (simp add: valid_rgba_def)

subsection \<open>The gradient\<close>

lemma clip8_id: "0 \<le> v \<Longrightarrow> v \<le> 255 \<Longrightarrow> clip8 v = v"
  by (simp add: clip8_def)

lemma py_int_nonneg: "0 \<le> v \<Longrightarrow> py_int v = \<lfloor>v\<rfloor>"
  by (simp add: py_int_def)

lemma gradient_channel_bounds:
  assumes a: "0 \<le> a" "a \<le> 255" and b: "0 \<le> b" "b \<le> 255" and x: "0 \<le> x" "x < w"
  shows "0 \<le> gradient_channel a b x w \<and> gradient_channel a b x w \<le> 255"
proof -
  have w: "0 < w" using x by simp
  define t :: real where "t = of_int x / of_int w"
  have t0: "0 \<le> t" using x w by (simp add: t_def)
  have t1: "t \<le> 1" using x w by (simp add: t_def)
  define v :: real where "v = of_int a + of_int ((b - a) * x) / of_int w"
  have v: "v = of_int a * (1 - t) + of_int b * t"
    by (simp add: v_def t_def algebra_simps diff_divide_distrib)
  have "0 \<le> of_int a * (1 - t)" "0 \<le> of_int b * t" using a b t0 t1 by simp_all
  then have v0: "0 \<le> v" unfolding v by linarith
  have "of_int a * (1 - t) \<le> 255 * (1 - t)" using a t1 by (intro mult_right_mono) simp_all
  moreover have "of_int b * t \<le> 255 * t" using b t0 by (intro mult_right_mono) simp_all
  moreover have "255 * (1 - t) + 255 * t = (255::real)" by (simp add: algebra_simps)
  ultimately have v255: "v \<le> 255" unfolding v by linarith
  have "gradient_channel a b x w = \<lfloor>v\<rfloor>"
    using v0 by (simp add: gradient_channel_def v_def py_int_def)
  moreover have "0 \<le> \<lfloor>v\<rfloor>" using v0 by simp
  moreover have "\<lfloor>v\<rfloor> \<le> 255" using v255 by (simp add: floor_le_iff)
  ultimately show ?thesis by simp
qed

lemma gradient_column_size:
  "width (gradient_column c1 c2 w h x img) = width img \<and>
   height (gradient_column c1 c2 w h x img) = height img \<and>
   mode (gradient_column c1 c2 w h x img) = mode img"
  by (cases c1, cases c2) (simp add: gradient_column_def draw_vline_def)

lemma fold_gradient_size:
  "width (fold (gradient_column c1 c2 w h) xs img) = width img \<and>
   height (fold (gradient_column c1 c2 w h) xs img) = height img \<and>
   mode (fold (gradient_column c1 c2 w h) xs img) = mode img"
  by (induction xs arbitrary: img) (simp_all add: gradient_column_size)

lemma gradient_column_other:
  "px \<noteq> x \<Longrightarrow> data (gradient_column c1 c2 w h x img) (px, py) = data img (px, py)"
  by (cases c1, cases c2) (simp add: gradient_column_def draw_vline_def)

lemma gradient_column_here:
  assumes "0 \<le> x" "x < width img" "0 \<le> y" "y < height img" "height img \<le> h"
  shows "data (gradient_column (r1, g1, b1) (r2, g2, b2) w h x img) (x, y) =
           ink (gradient_channel r1 r2 x w, gradient_channel g1 g2 x w,
                gradient_channel b1 b2 x w, 255)"
  using assms by (simp add: gradient_column_def draw_vline_def)

lemma fold_gradient_untouched:
  "x \<notin> set xs \<Longrightarrow>
   data (fold (gradient_column c1 c2 w h) xs img) (x, y) = data img (x, y)"
proof (induction xs arbitrary: img)
  case Nil
  then show ?case by simp
next
  case (Cons z zs)
  then have "x \<noteq> z" "x \<notin> set zs" by simp_all
  then show ?case using Cons.IH [of "gradient_column c1 c2 w h z img"]
    by (simp add: gradient_column_other)
qed

lemma fold_gradient_drawn:
  assumes "x \<in> set xs" "distinct xs" "0 \<le> x" "x < width img" "0 \<le> y" "y < height img"
    "height img \<le> h"
  shows "data (fold (gradient_column (r1, g1, b1) (r2, g2, b2) w h) xs img) (x, y) =
           ink (gradient_channel r1 r2 x w, gradient_channel g1 g2 x w,
                gradient_channel b1 b2 x w, 255)"
  using assms
proof (induction xs arbitrary: img)
  case Nil
  then show ?case by simp
next
  case (Cons z zs)
  let ?step = "gradient_column (r1, g1, b1) (r2, g2, b2) w h z img"
  have size: "width ?step = width img" "height ?step = height img"
    by (simp_all add: gradient_column_size)
  show ?case
  proof (cases "x = z")
    case True
    then have "x \<notin> set zs" using Cons.prems(2) by simp
    then have "data (fold (gradient_column (r1, g1, b1) (r2, g2, b2) w h) zs ?step) (x, y)
                 = data ?step (x, y)"
      by (rule fold_gradient_untouched)
    then show ?thesis
      using True Cons.prems gradient_column_here [of z img y h r1 g1 b1 r2 g2 b2 w] by simp
  next
    case False
    then have "x \<in> set zs" "distinct zs" using Cons.prems(1,2) by simp_all
    then show ?thesis using Cons.IH [of ?step] Cons.prems size by simp
  qed
qed

text \<open>
  C3. For \<open>width > 0\<close>, \<open>height > 0\<close> and two explicit RGB colours (8-bit channels),
  \<open>create_gradient_background\<close> returns an RGBA image of that size in which every pixel
  of column \<open>x\<close> has the channels \<open>int(c1 + (c2 - c1) * x / width)\<close> and alpha 255, the
  same in every row, and every pixel of column 0 is \<open>color1\<close>.
\<close>

theorem create_gradient_background_interpolates:
  assumes "0 < w" and "0 < h" and "valid_rgb (r1, g1, b1)" and "valid_rgb (r2, g2, b2)"
  shows "\<exists>img. create_gradient_background d1 d2 w h (Some (r1, g1, b1)) (Some (r2, g2, b2)) = Inr img \<and>
           mode img = RGBA \<and> width img = w \<and> height img = h \<and>
           (\<forall>x y. 0 \<le> x \<and> x < w \<and> 0 \<le> y \<and> y < h \<longrightarrow>
              data img (x, y) =
                (py_int (of_int r1 + of_int ((r2 - r1) * x) / of_int w),
                 py_int (of_int g1 + of_int ((g2 - g1) * x) / of_int w),
                 py_int (of_int b1 + of_int ((b2 - b1) * x) / of_int w), 255)) \<and>
           (\<forall>y. 0 \<le> y \<and> y < h \<longrightarrow> data img (0, y) = (r1, g1, b1, 255))"
proof -
  let ?start = "\<lparr>mode = RGBA, width = w, height = h, data = (\<lambda>p. ink (r1, g1, b1, 255))\<rparr>"
  let ?img = "fold (gradient_column (r1, g1, b1) (r2, g2, b2) w h) [0 .. w - 1] ?start"
  have res: "create_gradient_background d1 d2 w h (Some (r1, g1, b1)) (Some (r2, g2, b2)) = Inr ?img"
    using assms(1,2) by (simp add: create_gradient_background_def Image_new_def)
  have size: "mode ?img = RGBA" "width ?img = w" "height ?img = h"
    using fold_gradient_size [of "(r1, g1, b1)" "(r2, g2, b2)" w h "[0 .. w - 1]" ?start]
    by simp_all
  have px: "data ?img (x, y) =
      (gradient_channel r1 r2 x w, gradient_channel g1 g2 x w, gradient_channel b1 b2 x w, 255)"
    if "0 \<le> x" "x < w" "0 \<le> y" "y < h" for x y
  proof -
    have "x \<in> set [0 .. w - 1]" using that by simp
    then have "data ?img (x, y) =
        ink (gradient_channel r1 r2 x w, gradient_channel g1 g2 x w,
             gradient_channel b1 b2 x w, 255)"
      using that by (intro fold_gradient_drawn) simp_all
    moreover have "clip8 (gradient_channel r1 r2 x w) = gradient_channel r1 r2 x w"
      using gradient_channel_bounds [of r1 r2 x w] assms(3,4) that
      by (simp add: valid_rgb_def clip8_id)
    moreover have "clip8 (gradient_channel g1 g2 x w) = gradient_channel g1 g2 x w"
      using gradient_channel_bounds [of g1 g2 x w] assms(3,4) that
      by (simp add: valid_rgb_def clip8_id)
    moreover have "clip8 (gradient_channel b1 b2 x w) = gradient_channel b1 b2 x w"
      using gradient_channel_bounds [of b1 b2 x w] assms(3,4) that
      by (simp add: valid_rgb_def clip8_id)
    ultimately show ?thesis by (simp add: ink_def clip8_def)
  qed
  have first: "data ?img (0, y) = (r1, g1, b1, 255)" if "0 \<le> y" "y < h" for y
    using px [of 0 y] that assms(1) by (simp add: gradient_channel_def py_int_def)
  show ?thesis
    using res size px first by (simp add: gradient_channel_def)
qed

theorem create_gradient_background_interpolates_witness:
  "\<exists>img. create_gradient_background (0, 0, 0) (0, 0, 0) 4 2 (Some (10, 20, 30)) (Some (50, 20, 0)) = Inr img \<and>
      width img = 4 \<and> height img = 2 \<and>
      data img (3, 1) = (40, 20, 7, 255) \<and> data img (0, 1) = (10, 20, 30, 255)"
proof -
  have v: "valid_rgb (10, 20, 30)" "valid_rgb (50, 20, 0)" by (simp_all add: valid_rgb_def)
  obtain img where
    r: "create_gradient_background (0, 0, 0) (0, 0, 0) 4 2 (Some (10, 20, 30)) (Some (50, 20, 0)) = Inr img"
    and s: "width img = 4" "height img = 2"
    and p: "\<forall>x y. 0 \<le> x \<and> x < 4 \<and> 0 \<le> y \<and> y < 2 \<longrightarrow>
              data img (x, y) =
                (py_int (of_int 10 + of_int ((50 - 10) * x) / of_int 4),
                 py_int (of_int 20 + of_int ((20 - 20) * x) / of_int 4),
                 py_int (of_int 30 + of_int ((0 - 30) * x) / of_int 4), 255)"
    and q: "\<forall>y. 0 \<le> y \<and> y < 2 \<longrightarrow> data img (0, y) = (10, 20, 30, 255)"
    using create_gradient_background_interpolates [of 4 2 10 20 30 50 20 0 "(0, 0, 0)" "(0, 0, 0)", OF _ _ v]
    by auto
  have "data img (3, 1) = (40, 20, 7, 255)"
    using p [rule_format, of 3 1] by (simp add: py_int_def)
  moreover have "data img (0, 1) = (10, 20, 30, 255)" using q by simp
  ultimately show ?thesis using r s by simp
qed

subsection \<open>The shadow\<close>

lemma ink_valid: "valid_rgba c \<Longrightarrow> ink c = c"
  by (cases c) (simp add: ink_def valid_rgba_def clip8_def)

lemma shadow_canvas_ok:
  assumes "0 \<le> width img + ox + br * 2" and "0 \<le> height img + oy + br * 2"
    and "0 \<le> width img" and "0 \<le> height img"
  shows "shadow_canvas to_rgba img (ox, oy) sc br =
           Inr (paste to_rgba
                  \<lparr>mode = RGBA, width = width img + ox + br * 2,
                   height = height img + oy + br * 2, data = (\<lambda>p. ink (0, 0, 0, 0))\<rparr>
                  \<lparr>mode = RGBA, width = width img, height = height img, data = (\<lambda>p. ink sc)\<rparr>
                  (br + ox, br + oy))"
  using assms by (simp add: shadow_canvas_def Image_new_def)

lemma shadow_canvas_size:
  assumes "shadow_canvas to_rgba img (ox, oy) sc br = Inr painted"
  shows "mode painted = RGBA \<and> width painted = width img + ox + br * 2 \<and>
         height painted = height img + oy + br * 2"
  using assms
  by (auto simp: shadow_canvas_def Image_new_def paste_def Let_def split: if_splits)

lemma add_shadow_ok:
  assumes "0 \<le> width img + ox + br * 2" and "0 \<le> height img + oy + br * 2"
    and "0 \<le> width img" and "0 \<le> height img"
  shows "\<exists>painted. shadow_canvas to_rgba img (ox, oy) sc br = Inr painted \<and>
           add_shadow blur to_rgba img (ox, oy) sc br =
             Inr ((gaussian_filter blur br painted)
                    \<lparr>data := (\<lambda>p. composite_pixel (data (gaussian_filter blur br painted) p)
                       (data (if mode img = RGBA
                              then paste_mask to_rgba
                                     \<lparr>mode = RGBA, width = width img + ox + br * 2,
                                      height = height img + oy + br * 2,
                                      data = (\<lambda>p. ink (0, 0, 0, 0))\<rparr> img (br, br) img
                              else paste to_rgba
                                     \<lparr>mode = RGBA, width = width img + ox + br * 2,
                                      height = height img + oy + br * 2,
                                      data = (\<lambda>p. ink (0, 0, 0, 0))\<rparr> img (br, br)) p))\<rparr>)"
proof -
  obtain painted where p: "shadow_canvas to_rgba img (ox, oy) sc br = Inr painted"
    using shadow_canvas_ok [OF assms] by blast
  have s: "mode painted = RGBA" "width painted = width img + ox + br * 2"
    "height painted = height img + oy + br * 2"
    using shadow_canvas_size [OF p] by simp_all
  show ?thesis
    using p s assms(1,2)
    by (simp add: add_shadow_def gaussian_filter_def Image_new_def alpha_composite_def
        paste_mask_def paste_def)
qed

lemma add_shadow_negative_size:
  assumes "width img + ox + br * 2 < 0 \<or> height img + oy + br * 2 < 0"
  shows "add_shadow blur to_rgba img (ox, oy) sc br = Inl ValueError"
  using assms by (auto simp: add_shadow_def shadow_canvas_def Image_new_def)

text \<open>
  C4. Whenever the enlarged sizes are not negative (so for every image with a non-negative
  offset and blur radius), \<open>add_shadow\<close> returns an image whose width is the input width
  plus \<open>offset_x + 2 * blur_radius\<close> and whose height is the input height plus
  \<open>offset_y + 2 * blur_radius\<close>.
\<close>

theorem add_shadow_dimensions:
  assumes "0 \<le> width img + ox + br * 2" and "0 \<le> height img + oy + br * 2"
    and "0 \<le> width img" and "0 \<le> height img"
  shows "\<exists>out. add_shadow blur to_rgba img (ox, oy) sc br = Inr out \<and>
           width out = width img + ox + 2 * br \<and> height out = height img + oy + 2 * br"
proof -
  obtain painted where p: "shadow_canvas to_rgba img (ox, oy) sc br = Inr painted"
    and a: "add_shadow blur to_rgba img (ox, oy) sc br =
             Inr ((gaussian_filter blur br painted)
                    \<lparr>data := (\<lambda>p. composite_pixel (data (gaussian_filter blur br painted) p)
                       (data (if mode img = RGBA
                              then paste_mask to_rgba
                                     \<lparr>mode = RGBA, width = width img + ox + br * 2,
                                      height = height img + oy + br * 2,
                                      data = (\<lambda>p. ink (0, 0, 0, 0))\<rparr> img (br, br) img
                              else paste to_rgba
                                     \<lparr>mode = RGBA, width = width img + ox + br * 2,
                                      height = height img + oy + br * 2,
                                      data = (\<lambda>p. ink (0, 0, 0, 0))\<rparr> img (br, br)) p))\<rparr>)"
    using add_shadow_ok [OF assms] by blast
  show ?thesis
    using a shadow_canvas_size [OF p] by (simp add: gaussian_filter_def)
qed

theorem add_shadow_dimensions_witness:
  "\<exists>out. add_shadow (\<lambda>r i. data i) (\<lambda>i. i)
            \<lparr>mode = RGBA, width = 410, height = 610, data = (\<lambda>p. (1, 2, 3, 255))\<rparr>
            (20, 20) (0, 0, 0, 255) 20 = Inr out \<and>
         width out = 470 \<and> height out = 670"
  using add_shadow_dimensions
    [of "\<lparr>mode = RGBA, width = 410, height = 610, data = (\<lambda>p. (1, 2, 3, 255))\<rparr>" 20 20 20
        "\<lambda>r i. data i" "\<lambda>i. i" "(0, 0, 0, 255)"]
  by simp

lemma div256_unique: "q * 256 \<le> a \<Longrightarrow> a < q * 256 + 256 \<Longrightarrow> a div 256 = (q::int)"
  by linarith

lemma div128_unique: "q * 128 \<le> a \<Longrightarrow> a < q * 128 + 128 \<Longrightarrow> a div 128 = (q::int)"
  by linarith

lemma div256_bounds: "256 * (a div 256) \<le> (a::int) \<and> a < 256 * (a div 256) + 256"
  by linarith

lemma shift255_exact: "0 \<le> v \<Longrightarrow> v \<le> 255 \<Longrightarrow> shift255 (v * 255 + 128) = v"
proof -
  assume v: "0 \<le> v" "v \<le> 255"
  show ?thesis
  proof (cases "v \<le> 128")
    case True
    have "(v * 255 + 128) div 256 = v" using v True by (intro div256_unique) simp_all
    moreover have "(v + (v * 255 + 128)) div 256 = v" using v by (intro div256_unique) simp_all
    ultimately show ?thesis by (simp add: shift255_def)
  next
    case False
    have "(v * 255 + 128) div 256 = v - 1" using v False by (intro div256_unique) simp_all
    moreover have "(v - 1 + (v * 255 + 128)) div 256 = v" using v by (intro div256_unique) simp_all
    ultimately show ?thesis by (simp add: shift255_def)
  qed
qed

lemma shift255_precise: "0 \<le> v \<Longrightarrow> v \<le> 255 \<Longrightarrow> shift255 (v * 32640 + 16384) div 128 = v"
proof -
  assume v: "0 \<le> v" "v \<le> 255"
  define a where "a = v * 32640 + 16384"
  define q1 where "q1 = a div 256"
  define q2 where "q2 = (q1 + a) div 256"
  have b1: "256 * q1 \<le> a" "a < 256 * q1 + 256"
    using div256_bounds [of a] by (simp_all add: q1_def)
  have b2: "256 * q2 \<le> q1 + a" "q1 + a < 256 * q2 + 256"
    using div256_bounds [of "q1 + a"] by (simp_all add: q2_def)
  have "v * 128 \<le> q2" using b1 b2 v unfolding a_def by linarith
  moreover have "q2 < v * 128 + 128" using b1 b2 v unfolding a_def by linarith
  ultimately have "q2 div 128 = v" by (rule div128_unique)
  then show ?thesis by (simp add: shift255_def a_def q1_def q2_def)
qed

lemma blend_opaque: "0 \<le> s \<Longrightarrow> s \<le> 255 \<Longrightarrow> blend 255 d s = s"
  by (simp add: blend_def shift255_exact)

lemma blend_transparent: "0 \<le> d \<Longrightarrow> d \<le> 255 \<Longrightarrow> blend 0 d s = d"
  by (simp add: blend_def shift255_exact)

lemma composite_opaque:
  assumes "0 \<le> r" "r \<le> 255" "0 \<le> g" "g \<le> 255" "0 \<le> b" "b \<le> 255"
  shows "composite_pixel d (r, g, b, 255) = (r, g, b, 255)"
proof -
  obtain dr dg db da where d: "d = (dr, dg, db, da)" by (cases d) auto
  have a: "shift255 65153 = 255" by (simp add: shift255_def)
  show ?thesis
    using assms a by (simp add: d composite_pixel_def shift255_precise)
qed

lemma composite_clear: "composite_pixel d (r, g, b, 0) = d"
  by (cases d) (simp add: composite_pixel_def)

lemma paste_rectangle:
  "data (paste to_rgba dst \<lparr>mode = RGBA, width = w, height = h, data = (\<lambda>p. c)\<rparr> (bx, by)) (px, py) =
     (if bx \<le> px \<and> px < bx + w \<and> by \<le> py \<and> py < by + h then c else data dst (px, py))"
  by (simp add: paste_def in_box_def as_rgba_def)

text \<open>
  C5, as amended. The shadow painted by \<open>add_shadow\<close> is a solid rectangle of the input's
  size in the shadow colour at \<open>(blur_radius + offset)\<close>, whatever the input's alpha, on
  a transparent canvas; it is blurred, and the input is composited over it at
  \<open>(blur_radius, blur_radius)\<close>, masked by its own alpha when its mode is RGBA. In the
  output every pixel where the input is opaque (alpha 255, or any pixel of an RGB input)
  has exactly the input's RGB values, and where nothing opaque covers it (outside the
  input's box, or at an input alpha of 0) the output is the blurred shadow.
\<close>

theorem add_shadow_rectangle_then_overlay:
  assumes "0 \<le> ox" and "0 \<le> oy" and "0 \<le> br" and "0 \<le> width img" and "0 \<le> height img"
  shows "\<exists>painted out.
           shadow_canvas to_rgba img (ox, oy) sc br = Inr painted \<and>
           (\<forall>x y. data painted (x, y) =
              (if br + ox \<le> x \<and> x < br + ox + width img \<and> br + oy \<le> y \<and> y < br + oy + height img
               then ink sc else (0, 0, 0, 0))) \<and>
           add_shadow blur to_rgba img (ox, oy) sc br = Inr out \<and>
           (\<forall>x y r g b. mode img = RGBA \<and> 0 \<le> x \<and> x < width img \<and> 0 \<le> y \<and> y < height img \<and>
              data img (x, y) = (r, g, b, 255) \<and> valid_rgba (r, g, b, 255) \<longrightarrow>
              data out (br + x, br + y) = (r, g, b, 255)) \<and>
           (\<forall>x y r g b a. mode img = RGB \<and> 0 \<le> x \<and> x < width img \<and> 0 \<le> y \<and> y < height img \<and>
              data img (x, y) = (r, g, b, a) \<and> valid_rgba (r, g, b, 255) \<longrightarrow>
              data out (br + x, br + y) = (r, g, b, 255)) \<and>
           (\<forall>x y r g b. mode img = RGBA \<and> 0 \<le> x \<and> x < width img \<and> 0 \<le> y \<and> y < height img \<and>
              data img (x, y) = (r, g, b, 0) \<longrightarrow>
              data out (br + x, br + y) = blur br painted (br + x, br + y)) \<and>
           (\<forall>x y. \<not> (br \<le> x \<and> x < br + width img \<and> br \<le> y \<and> y < br + height img) \<longrightarrow>
              data out (x, y) = blur br painted (x, y))"
proof -
  have sizes: "0 \<le> width img + ox + br * 2" "0 \<le> height img + oy + br * 2"
    using assms by simp_all
  let ?blank = "\<lparr>mode = RGBA, width = width img + ox + br * 2,
                 height = height img + oy + br * 2, data = (\<lambda>p. ink (0, 0, 0, 0))\<rparr>"
  let ?over = "if mode img = RGBA then paste_mask to_rgba ?blank img (br, br) img
               else paste to_rgba ?blank img (br, br)"
  obtain painted where p: "shadow_canvas to_rgba img (ox, oy) sc br = Inr painted"
    and a: "add_shadow blur to_rgba img (ox, oy) sc br =
             Inr ((gaussian_filter blur br painted)
                    \<lparr>data := (\<lambda>p. composite_pixel (data (gaussian_filter blur br painted) p)
                       (data ?over p))\<rparr>)"
    using add_shadow_ok [OF sizes assms(4,5)] by blast
  let ?out = "(gaussian_filter blur br painted)
                \<lparr>data := (\<lambda>p. composite_pixel (data (gaussian_filter blur br painted) p)
                   (data ?over p))\<rparr>"
  have out: "data ?out q = composite_pixel (blur br painted q) (data ?over q)" for q
    by (simp add: gaussian_filter_def)
  have blank: "ink (0, 0, 0, 0) = (0, 0, 0, 0)" by (simp add: ink_def clip8_def)
  have rect: "data painted (x, y) =
      (if br + ox \<le> x \<and> x < br + ox + width img \<and> br + oy \<le> y \<and> y < br + oy + height img
       then ink sc else (0, 0, 0, 0))" for x y
  proof -
    have "painted = paste to_rgba ?blank
        \<lparr>mode = RGBA, width = width img, height = height img, data = (\<lambda>p. ink sc)\<rparr>
        (br + ox, br + oy)"
      using p shadow_canvas_ok [OF sizes assms(4,5), of to_rgba sc] by simp
    then show ?thesis by (simp add: paste_rectangle blank)
  qed
  have opaque: "data ?out (br + x, br + y) = (r, g, b, 255)"
    if "mode img = RGBA" "0 \<le> x" "x < width img" "0 \<le> y" "y < height img"
      "data img (x, y) = (r, g, b, 255)" "valid_rgba (r, g, b, 255)" for x y r g b
  proof -
    have "data ?over (br + x, br + y) = (r, g, b, 255)"
      using that
      by (simp add: paste_mask_def in_box_def as_rgba_def blend_pixel_def blank blend_opaque
          valid_rgba_def)
    then show ?thesis
      using that(7) unfolding out by (simp add: composite_opaque valid_rgba_def)
  qed
  have rgb: "data ?out (br + x, br + y) = (r, g, b, 255)"
    if "mode img = RGB" "0 \<le> x" "x < width img" "0 \<le> y" "y < height img"
      "data img (x, y) = (r, g, b, a)" "valid_rgba (r, g, b, 255)" for x y r g b a
  proof -
    have "data ?over (br + x, br + y) = (r, g, b, 255)"
      using that by (simp add: paste_def in_box_def as_rgba_def)
    then show ?thesis
      using that(7) unfolding out by (simp add: composite_opaque valid_rgba_def)
  qed
  have clear: "data ?out (br + x, br + y) = blur br painted (br + x, br + y)"
    if "mode img = RGBA" "0 \<le> x" "x < width img" "0 \<le> y" "y < height img"
      "data img (x, y) = (r, g, b, 0)" for x y r g b
  proof -
    have "data ?over (br + x, br + y) = (0, 0, 0, 0)"
      using that
      by (simp add: paste_mask_def in_box_def as_rgba_def blend_pixel_def blank
          blend_transparent)
    then show ?thesis unfolding out by (simp add: composite_clear)
  qed
  have outside: "data ?out (x, y) = blur br painted (x, y)"
    if "\<not> (br \<le> x \<and> x < br + width img \<and> br \<le> y \<and> y < br + height img)" for x y
  proof -
    have "data ?over (x, y) = (0, 0, 0, 0)"
      using that by (auto simp: paste_mask_def paste_def in_box_def blank)
    then show ?thesis unfolding out by (simp add: composite_clear)
  qed
  show ?thesis
    using p a rect opaque rgb clear outside by blast
qed

theorem add_shadow_rectangle_then_overlay_witness:
  "\<exists>painted out.
     shadow_canvas (\<lambda>i. i)
       \<lparr>mode = RGBA, width = 2, height = 2,
        data = (\<lambda>p. if p = (0, 0) then (9, 9, 9, 0) else (7, 8, 9, 255))\<rparr>
       (2, 2) (0, 0, 0, 100) 1 = Inr painted \<and>
     data painted (3, 3) = (0, 0, 0, 100) \<and> data painted (2, 2) = (0, 0, 0, 0) \<and>
     add_shadow (\<lambda>r i. data i) (\<lambda>i. i)
       \<lparr>mode = RGBA, width = 2, height = 2,
        data = (\<lambda>p. if p = (0, 0) then (9, 9, 9, 0) else (7, 8, 9, 255))\<rparr>
       (2, 2) (0, 0, 0, 100) 1 = Inr out \<and>
     data out (2, 2) = (7, 8, 9, 255) \<and> data out (4, 4) = (0, 0, 0, 100)"
proof -
  let ?img = "\<lparr>mode = RGBA, width = 2, height = 2,
        data = (\<lambda>p. if p = (0, 0) then (9, 9, 9, 0) else (7, 8, 9, 255))\<rparr>"
  obtain painted out where
    p: "shadow_canvas (\<lambda>i. i) ?img (2, 2) (0, 0, 0, 100) 1 = Inr painted"
    and rect: "\<forall>x y. data painted (x, y) =
              (if 1 + 2 \<le> x \<and> x < 1 + 2 + width ?img \<and> 1 + 2 \<le> y \<and> y < 1 + 2 + height ?img
               then ink (0, 0, 0, 100) else (0, 0, 0, 0))"
    and a: "add_shadow (\<lambda>r i. data i) (\<lambda>i. i) ?img (2, 2) (0, 0, 0, 100) 1 = Inr out"
    and opaque: "\<forall>x y r g b. mode ?img = RGBA \<and> 0 \<le> x \<and> x < width ?img \<and> 0 \<le> y \<and> y < height ?img \<and>
              data ?img (x, y) = (r, g, b, 255) \<and> valid_rgba (r, g, b, 255) \<longrightarrow>
              data out (1 + x, 1 + y) = (r, g, b, 255)"
    and outside: "\<forall>x y. \<not> (1 \<le> x \<and> x < 1 + width ?img \<and> 1 \<le> y \<and> y < 1 + height ?img) \<longrightarrow>
              data out (x, y) = (\<lambda>r i. data i) 1 painted (x, y)"
    using add_shadow_rectangle_then_overlay
      [of 2 2 1 ?img "\<lambda>i. i" "(0, 0, 0, 100)" "\<lambda>r i. data i"]
    by auto
  have "data painted (3, 3) = (0, 0, 0, 100)" "data painted (2, 2) = (0, 0, 0, 0)"
    "data painted (4, 4) = (0, 0, 0, 100)"
    using rect by (simp_all add: ink_def clip8_def)
  moreover have "data out (2, 2) = (7, 8, 9, 255)"
    using opaque [rule_format, of 1 1 7 8 9] by (simp add: valid_rgba_def)
  moreover have "data out (4, 4) = data painted (4, 4)"
    using outside [rule_format, of 4 4] by simp
  ultimately show ?thesis using p a by simp
qed

text \<open>
  C5 as stated fails: the shadow does not follow the input's alpha. The input below is
  fully transparent at \<open>(0, 0)\<close>, yet with offset \<open>(2, 2)\<close> and blur radius 0 (the blur
  leaving the pixels as they are) the painted canvas and the output carry the shadow
  colour at \<open>(2, 2)\<close>, where a silhouette of the input would be transparent.
\<close>

theorem add_shadow_silhouette_counterexample:
  "snd (snd (snd (data
      \<lparr>mode = RGBA, width = 2, height = 2,
       data = (\<lambda>p. if p = (0, 0) then (9, 9, 9, 0) else (7, 8, 9, 255))\<rparr> (0, 0)))) = 0 \<and>
   (case shadow_canvas (\<lambda>i. i)
      \<lparr>mode = RGBA, width = 2, height = 2,
       data = (\<lambda>p. if p = (0, 0) then (9, 9, 9, 0) else (7, 8, 9, 255))\<rparr>
      (2, 2) (0, 0, 0, 100) 0 of
      Inl e \<Rightarrow> False | Inr painted \<Rightarrow> data painted (2, 2) = (0, 0, 0, 100)) \<and>
   (case add_shadow (\<lambda>r i. data i) (\<lambda>i. i)
      \<lparr>mode = RGBA, width = 2, height = 2,
       data = (\<lambda>p. if p = (0, 0) then (9, 9, 9, 0) else (7, 8, 9, 255))\<rparr>
      (2, 2) (0, 0, 0, 100) 0 of
      Inl e \<Rightarrow> False | Inr out \<Rightarrow> data out (2, 2) = (0, 0, 0, 100))"
  by (simp add: add_shadow_def shadow_canvas_def Image_new_def paste_def paste_mask_def
      in_box_def as_rgba_def gaussian_filter_def alpha_composite_def composite_pixel_def
      ink_def clip8_def)

subsection \<open>File selection, order and grouping\<close>


















subsection \<open>The rotation canvas\<close>

lemma rotation_canvas_size_floor:
  "rotation_canvas_size cw ch =
     \<lfloor>sqrt (of_int ((cw + shadow_extra_width)\<^sup>2 + (ch + shadow_extra_height)\<^sup>2)) * 1.5\<rfloor>"
proof -
  have "0 \<le> sqrt (of_int ((cw + shadow_extra_width)\<^sup>2 + (ch + shadow_extra_height)\<^sup>2)) * 1.5"
    by simp
  then show ?thesis unfolding rotation_canvas_size_def py_int_def by simp
qed

text \<open>
  C6, as amended. The side of the square rotation canvas is \<open>1.5 * sqrt(W\<^sup>2 + H\<^sup>2)\<close>
  truncated to an integer, where \<open>W\<close> and \<open>H\<close> are the width and height of the column
  canvas: it is at most that value and misses it by less than 1. The column canvas is
  pasted at \<open>((side - cell_width) // 2, (side - column_height) // 2)\<close>: this centres the
  \<open>cell_width\<close> by \<open>column_height\<close> area of the posters, the shadow margin of the column
  canvas lying beyond it to the right and below.
\<close>

theorem rotation_canvas_truncated:
  "column_canvas_size cw ch = (cw + 60, ch + 60) \<and>
   of_int (rotation_canvas_size cw ch) \<le> 1.5 * sqrt (of_int ((cw + 60)\<^sup>2 + (ch + 60)\<^sup>2)) \<and>
   1.5 * sqrt (of_int ((cw + 60)\<^sup>2 + (ch + 60)\<^sup>2)) < of_int (rotation_canvas_size cw ch) + 1 \<and>
   paste_x cw ch = (rotation_canvas_size cw ch - cw) div 2 \<and>
   paste_y cw ch = (rotation_canvas_size cw ch - ch) div 2 \<and>
   rotation_canvas_size cw ch - (paste_x cw ch + cw) - paste_x cw ch \<in> {0, 1} \<and>
   rotation_canvas_size cw ch - (paste_y cw ch + ch) - paste_y cw ch \<in> {0, 1}"
proof -
  let ?v = "sqrt (of_int ((cw + 60)\<^sup>2 + (ch + 60)\<^sup>2)) * 1.5"
  have s: "rotation_canvas_size cw ch = \<lfloor>?v\<rfloor>"
    by (simp add: rotation_canvas_size_floor shadow_extra_width_def shadow_extra_height_def)
  have "of_int \<lfloor>?v\<rfloor> \<le> ?v" by (rule of_int_floor_le)
  moreover have "?v < of_int \<lfloor>?v\<rfloor> + 1" by linarith
  moreover have "rotation_canvas_size cw ch - (paste_x cw ch + cw) - paste_x cw ch \<in> {0, 1}"
    unfolding paste_x_def by (simp; linarith)
  moreover have "rotation_canvas_size cw ch - (paste_y cw ch + ch) - paste_y cw ch \<in> {0, 1}"
    unfolding paste_y_def by (simp; linarith)
  ultimately show ?thesis
    unfolding s
    by (simp add: column_canvas_size_def shadow_extra_width_def shadow_extra_height_def
        paste_x_def paste_y_def s mult.commute)
qed

text \<open>
  C6 as stated fails. With cells of 410 by 610, 3 rows and a margin of 22 the column
  canvas is 470 by 1934 and \<open>1.5 * sqrt(470\<^sup>2 + 1934\<^sup>2)\<close> is about 2985.44, but the
  canvas side is 2985; and the column canvas is pasted at \<open>x = 1287\<close>, while centring its
  470 columns in 2985 would need \<open>x = 1257\<close>.
\<close>

theorem rotation_canvas_counterexample:
  "column_height_of 3 610 22 = 1874 \<and>
   column_canvas_size 410 1874 = (470, 1934) \<and>
   rotation_canvas_size 410 1874 = 2985 \<and>
   \<not> (1.5 * sqrt (of_int (470\<^sup>2 + 1934\<^sup>2)) \<le> of_int (rotation_canvas_size 410 1874)) \<and>
   paste_x 410 1874 = 1287 \<and> (2985 - 470) div 2 = (1257 :: int)"
proof -
  have lo: "(1990 :: real) \<le> sqrt 3961256" by (rule real_le_rsqrt) simp
  have lo': "(1990 :: real) < sqrt 3961256" by (rule real_less_rsqrt) simp
  have hi: "sqrt 3961256 < (5972 / 3 :: real)" by (rule real_less_lsqrt) (simp_all add: power2_eq_square)
  have "\<lfloor>sqrt 3961256 * 1.5 :: real\<rfloor> = 2985"
    using lo hi by (simp add: floor_eq_iff)
  then have s: "rotation_canvas_size 410 1874 = 2985"
    by (simp add: rotation_canvas_size_floor shadow_extra_width_def shadow_extra_height_def)
  have "\<not> (1.5 * sqrt (of_int (470\<^sup>2 + 1934\<^sup>2)) \<le> (2985 :: real))"
    using lo' by simp
  then show ?thesis
    unfolding s
    by (simp add: column_height_of_def column_canvas_size_def shadow_extra_width_def
        shadow_extra_height_def paste_x_def s)
qed

subsection \<open>The English title\<close>




















lemma english_title_without_word:
  assumes "split_ws name = []"
  shows "english_title_of name = Inl ValueError"
  using assms by (simp add: english_title_of_def english_font_size_def py_max_def)

text \<open>
  A no-break space separates words for \<open>split()\<close> but not for \<open>split(" ")\<close>: two words of
  six characters around one give the font size 50 and a single line of 13 characters.
\<close>

lemma english_title_no_break_space:
  "english_font_size [97, 97, 97, 97, 97, 97, 160, 98, 98, 98, 98, 98, 98] = Inr 50 \<and>
   split_on 32 [97, 97, 97, 97, 97, 97, 160, 98, 98, 98, 98, 98, 98] =
     [[97, 97, 97, 97, 97, 97, 160, 98, 98, 98, 98, 98, 98]]"
proof -
  have "split_ws [97, 97, 97, 97, 97, 97, 160, 98, 98, 98, 98, 98, 98] =
      [[97, 97, 97, 97, 97, 97], [98, 98, 98, 98, 98, 98]]"
    by (simp add: split_ws_def is_space_def)
  then show ?thesis
    by (simp add: english_font_size_def py_max_def base_font_size_def split_on_def)
qed





subsection \<open>The colour sampler\<close>

lemma counter_fold_same:
  "fold counter_add (replicate n x) [(x, c)] = [(x, c + n)]"
  by (induction n arbitrary: c) simp_all

lemma Counter_replicate: "Counter (replicate (Suc n) x) = [(x, Suc n)]"
  using counter_fold_same [of n x 1] by (simp add: Counter_def)

lemma primary_color_uniform:
  assumes "kept p"
  shows "primary_color_of (replicate (Suc n) p) = Inl IndexError"
proof -
  have f: "first_filter (replicate (Suc n) p) = replicate (Suc n) (opaque p)"
    using assms by (simp add: first_filter_def filter_replicate del: replicate.simps)
  have c: "most_common 5 (Counter (replicate (Suc n) (opaque p))) = [(opaque p, Suc n)]"
    by (simp only: Counter_replicate) (simp add: most_common_def)
  have ne: "replicate (Suc n) (opaque p) \<noteq> []" by simp
  show ?thesis
    by (simp only: primary_color_of_def f Let_def c ne if_False) (simp add: item_def)
qed

lemma primary_color_nothing_left:
  assumes "\<not> kept p" and "\<not> 100 < snd (snd (snd p))"
  shows "primary_color_of (replicate n p) = Inr (SingleColor default_color)"
proof -
  have "first_filter (replicate n p) = []"
    using assms(1) by (simp add: first_filter_def filter_replicate)
  moreover have "second_filter (replicate n p) = []"
    using assms(2) by (simp add: second_filter_def filter_replicate)
  ultimately show ?thesis by (simp add: primary_color_of_def)
qed

text \<open>
  C2: the code at the failing inputs. When the file cannot be opened, and when all 15000
  pixels of the resized image are transparent, \<open>get_poster_primary_color\<close> returns the
  default \<open>(150, 100, 50, 255)\<close>: one colour, not a pair of colours, and the caller's
  unpacking into two names raises ValueError.
\<close>

theorem primary_color_default_is_one_color:
  "get_poster_primary_color (Inl OSError) = (SingleColor (150, 100, 50, 255), True) \<and>
   unpack_two (fst (get_poster_primary_color (Inl OSError))) = Inl ValueError \<and>
   get_poster_primary_color (Inr (replicate 15000 (0, 0, 0, 0)))
     = (SingleColor (150, 100, 50, 255), False) \<and>
   unpack_two (fst (get_poster_primary_color (Inr (replicate 15000 (0, 0, 0, 0)))))
     = Inl ValueError"
proof -
  have k: "\<not> kept (0, 0, 0, 0)" "\<not> 100 < snd (snd (snd ((0, 0, 0, 0) :: rgba)))"
    by (simp_all add: kept_def)
  have "primary_color_of (replicate 15000 (0, 0, 0, 0)) = Inr (SingleColor default_color)"
    using k by (rule primary_color_nothing_left)
  then show ?thesis
    by (simp add: get_poster_primary_color_def default_color_def unpack_two_def)
qed

text \<open>
  C8: the code at the failing input. In a resized image whose 15000 pixels all have the
  colour \<open>(100, 100, 100, 255)\<close>, that colour passes the filter and is the whole
  population, but \<open>common_colors[1]\<close> raises IndexError and the function returns the
  default colour instead of it.
\<close>

theorem primary_color_single_color_image:
  "first_filter (replicate 15000 (100, 100, 100, 255)) = replicate 15000 (100, 100, 100, 255) \<and>
   primary_color_of (replicate 15000 (100, 100, 100, 255)) = Inl IndexError \<and>
   get_poster_primary_color (Inr (replicate 15000 (100, 100, 100, 255)))
     = (SingleColor (150, 100, 50, 255), True)"
proof -
  have k: "kept (100, 100, 100, 255)" by (simp add: kept_def brightness_def)
  have n: "(15000 :: nat) = Suc 14999" by simp
  have "primary_color_of (replicate (Suc 14999) (100, 100, 100, 255)) = Inl IndexError"
    using k by (rule primary_color_uniform)
  then have e: "primary_color_of (replicate 15000 (100, 100, 100, 255)) = Inl IndexError"
    by (simp only: n)
  have f: "first_filter (replicate 15000 (100, 100, 100, 255)) = replicate 15000 (100, 100, 100, 255)"
    using k by (simp add: first_filter_def filter_replicate opaque_def)
  show ?thesis
    using e f by (simp add: get_poster_primary_color_def default_color_def)
qed

lemma counter_add_keys:
  "map fst (counter_add x acc) = (if x \<in> fst ` set acc then map fst acc else map fst acc @ [x])"
proof (induction acc)
  case Nil
  then show ?case by simp
next
  case (Cons e acc)
  obtain k c where e: "e = (k, c)" by (cases e) auto
  show ?case
  proof (cases "k = x")
    case True
    then show ?thesis by (simp add: e)
  next
    case False
    then show ?thesis using Cons by (simp add: e)
  qed
qed

lemma counter_add_distinct:
  "distinct (map fst acc) \<Longrightarrow> distinct (map fst (counter_add x acc))"
  by (simp add: counter_add_keys)

lemma counter_add_map_of:
  "map_of (counter_add x acc) =
     (map_of acc)(x \<mapsto> (case map_of acc x of None \<Rightarrow> 1 | Some c \<Rightarrow> Suc c))"
  by (induction acc) (auto simp: fun_eq_iff)

lemma counter_fold_map_of:
  assumes "distinct (map fst acc)"
  shows "distinct (map fst (fold counter_add xs acc)) \<and>
         (\<forall>k. map_of (fold counter_add xs acc) k =
            (if k \<in> set xs
             then Some (count_list xs k + (case map_of acc k of None \<Rightarrow> 0 | Some c \<Rightarrow> c))
             else map_of acc k))"
  using assms
proof (induction xs arbitrary: acc)
  case Nil
  then show ?case by simp
next
  case (Cons x xs)
  let ?acc = "counter_add x acc"
  have d: "distinct (map fst ?acc)" using Cons.prems by (rule counter_add_distinct)
  note ih = Cons.IH [OF d]
  have notin: "count_list xs x = 0" if "x \<notin> set xs"
    using that by (simp add: count_list_0_iff)
  have "map_of (fold counter_add xs ?acc) k =
      (if k \<in> set (x # xs)
       then Some (count_list (x # xs) k + (case map_of acc k of None \<Rightarrow> 0 | Some c \<Rightarrow> c))
       else map_of acc k)" for k
  proof (cases "k = x")
    case True
    then show ?thesis
      using ih notin by (simp add: counter_add_map_of split: option.splits)
  next
    case False
    then show ?thesis
      using ih by (simp add: counter_add_map_of)
  qed
  then show ?case using ih by simp
qed

lemma Counter_entries:
  "distinct (map fst (Counter xs)) \<and>
   set (Counter xs) = (\<lambda>k. (k, count_list xs k)) ` set xs"
proof -
  have inv: "distinct (map fst (Counter xs))"
    "\<And>k. map_of (Counter xs) k = (if k \<in> set xs then Some (count_list xs k) else None)"
    using counter_fold_map_of [of "[]" xs] by (simp_all add: Counter_def)
  have "(k, n) \<in> set (Counter xs) \<longleftrightarrow> k \<in> set xs \<and> n = count_list xs k" for k n
  proof -
    have "(k, n) \<in> set (Counter xs) \<longleftrightarrow> map_of (Counter xs) k = Some n"
      using inv(1) by simp
    also have "\<dots> \<longleftrightarrow> k \<in> set xs \<and> n = count_list xs k"
      unfolding inv(2) by auto
    finally show ?thesis .
  qed
  then have "set (Counter xs) = (\<lambda>k. (k, count_list xs k)) ` set xs"
    by (auto simp: image_iff)
  then show ?thesis using inv(1) by simp
qed

lemma count_list_two:
  "k \<noteq> c \<Longrightarrow> count_list xs k + count_list xs c \<le> length xs"
  by (induction xs) auto

lemma sorted_head_least:
  assumes "sorted (map f ys)" and "y \<in> set ys"
  shows "f (hd ys) \<le> f y"
  using assms by (cases ys) auto

lemma most_common_head:
  assumes "length xs < 2 * count_list xs c"
  shows "\<exists>rest. sort_key (\<lambda>(k, n). - int n) (Counter xs) = (c, count_list xs c) # rest \<and>
           (rest = [] \<longleftrightarrow> set xs = {c})"
proof -
  let ?f = "\<lambda>(k, n). - int n"
  let ?S = "sort_key ?f (Counter xs)"
  have cin: "c \<in> set xs" using assms by (cases "c \<in> set xs") (simp_all add: count_list_0_iff)
  have entries: "set ?S = (\<lambda>k. (k, count_list xs k)) ` set xs"
    and dist: "distinct (map fst (Counter xs))"
    using Counter_entries [of xs] by simp_all
  have mem: "(c, count_list xs c) \<in> set ?S" using entries cin by blast
  then obtain e rest where S: "?S = e # rest" by (cases ?S) auto
  have "e \<in> set ?S" using S by simp
  then obtain k where k: "k \<in> set xs" "e = (k, count_list xs k)" using entries by blast
  have "?f (hd ?S) \<le> ?f (c, count_list xs c)"
    using mem by (intro sorted_head_least) (rule sorted_sort_key)
  then have ge: "count_list xs c \<le> count_list xs k" using S k by simp
  have kc: "k = c"
  proof (rule ccontr)
    assume "k \<noteq> c"
    then have "count_list xs k + count_list xs c \<le> length xs" by (rule count_list_two)
    then show False using ge assms by linarith
  qed
  have len: "length ?S = card (set xs)"
  proof -
    have "card (set (map fst (Counter xs))) = length (map fst (Counter xs))"
      using dist by (rule distinct_card)
    moreover have "set (map fst (Counter xs)) = set xs"
      using Counter_entries [of xs] by (auto simp: image_iff)
    ultimately show ?thesis by simp
  qed
  have "rest = [] \<longleftrightarrow> set xs = {c}"
  proof
    assume "rest = []"
    then have "card (set xs) = 1" using len S by simp
    then obtain z where "set xs = {z}" by (auto simp: card_1_singleton_iff)
    then show "set xs = {c}" using cin by auto
  next
    assume "set xs = {c}"
    then have "length ?S = 1" using len by simp
    then show "rest = []" using S by simp
  qed
  then show ?thesis using S k kc by simp
qed

lemma primary_color_majority:
  assumes "fp = (if first_filter pixels = [] then second_filter pixels else first_filter pixels)"
    and "length fp < 2 * count_list fp c"
  shows "(set fp = {c} \<longrightarrow> primary_color_of pixels = Inl IndexError) \<and>
         (set fp \<noteq> {c} \<longrightarrow> (\<exists>second. primary_color_of pixels = Inr (ColorPair c second)))"
proof -
  obtain rest where S: "sort_key (\<lambda>(k, n). - int n) (Counter fp) = (c, count_list fp c) # rest"
    and r: "rest = [] \<longleftrightarrow> set fp = {c}"
    using most_common_head [OF assms(2)] by blast
  have ne: "fp \<noteq> []" using assms(2) by auto
  have mc: "most_common 5 (Counter fp) = take 5 ((c, count_list fp c) # rest)"
    by (simp only: most_common_def S)
  have body: "primary_color_of pixels =
      (case item (take 5 ((c, count_list fp c) # rest)) 0 of
         Inl e \<Rightarrow> Inl e
       | Inr first \<Rightarrow>
           (case item (take 5 ((c, count_list fp c) # rest)) 1 of
              Inl e \<Rightarrow> Inl e
            | Inr second \<Rightarrow> Inr (ColorPair (fst first) (fst second))))"
    unfolding primary_color_of_def Let_def assms(1) [symmetric] mc
    using ne by simp
  show ?thesis
  proof (cases rest)
    case Nil
    then show ?thesis using body r by (simp add: item_def)
  next
    case (Cons s rest')
    then have "primary_color_of pixels = Inr (ColorPair c (fst s))"
      using body by (simp add: item_def)
    then have "\<exists>second. primary_color_of pixels = Inr (ColorPair c second)" by blast
    moreover have "set fp \<noteq> {c}" using r Cons by simp
    ultimately show ?thesis by blast
  qed
qed

subsection \<open>The workflow never raises\<close>

lemma bind_reports:
  assumes "\<And>x. (\<exists>e. fst (k x) = Inl e) \<or> (fst (k x) = Inr False \<and> ERROR \<in> fst ` set (snd (k x)))"
  shows "(\<exists>e. fst (bind m k) = Inl e) \<or>
         (fst (bind m k) = Inr False \<and> ERROR \<in> fst ` set (snd (bind m k)))"
proof (cases m)
  case (Pair r l)
  show ?thesis
  proof (cases r)
    case (Inl e)
    then show ?thesis using Pair by (simp add: bind_def)
  next
    case (Inr x)
    obtain r' l' where k: "k x = (r', l')" by (cases "k x") auto
    have "bind m k = (r', l @ l')" using Pair Inr k by (simp add: bind_def)
    then show ?thesis using assms [of x] k by auto
  qed
qed

lemma find_posters_none:
  assumes "w_listdir w poster_folder = Inr listing"
    and "filter (accepted (w_isfile w) poster_folder) listing = []"
  shows "find_posters w poster_folder = (Inr [], [])"
  using assms
  by (simp add: find_posters_def lift_def bind_def poster_files_of_def sorted_by_key_def)

lemma body_without_posters:
  assumes "w_listdir w (join (POSTER_FOLDER cfg) name) = Inr listing"
    and "filter (accepted (w_isfile w) (join (POSTER_FOLDER cfg) name)) listing = []"
  shows "(\<exists>e. fst (gen_poster_workflow_body cfg w name) = Inl e) \<or>
         (fst (gen_poster_workflow_body cfg w name) = Inr False \<and>
          ERROR \<in> fst ` set (snd (gen_poster_workflow_body cfg w name)))"
proof -
  have stop: "bind (find_posters w (join (POSTER_FOLDER cfg) name)) k = k []" for k :: "string list \<Rightarrow> bool run"
    using find_posters_none [OF assms] by (cases "k []") (simp add: bind_def)
  have report: "bind (logger ERROR ''no supported image'') (\<lambda>_. ret False)
      = (Inr False, [(ERROR, ''no supported image'')])"
    by (simp add: bind_def logger_def ret_def)
  show ?thesis
    unfolding gen_poster_workflow_body_def Let_def
    apply (rule bind_reports)
    apply (rule bind_reports)
    apply (rule bind_reports)
    apply (rule bind_reports)
    apply (rule bind_reports)
    apply (simp only: stop if_True report)
    apply simp
    done
qed

lemma handler_result:
  "bind (logger ERROR ''workflow failed'') (\<lambda>_. ret False) = (Inr False, [(ERROR, ''workflow failed'')])"
  by (simp add: bind_def logger_def ret_def)

text \<open>
  C1. \<open>gen_poster_workflow\<close> never raises: for every configuration, world and library
  name it returns a boolean. Every exception that leaves its try block (one not already
  handled by the loop over the posters or inside the two colour samplers) is caught,
  logged as an error and turned into False; a value returned by the try block is returned
  unchanged. When the listing of the library's folder has no accepted file (a supported
  image whose stem is a priority digit), the workflow logs an error and returns False.
\<close>

theorem gen_poster_workflow_never_raises:
  "(\<exists>b. fst (gen_poster_workflow cfg w name) = Inr b) \<and>
   (fst (gen_poster_workflow_body cfg w name) = Inl e \<longrightarrow>
      fst (gen_poster_workflow cfg w name) = Inr False \<and>
      snd (gen_poster_workflow cfg w name) =
        snd (gen_poster_workflow_body cfg w name) @ [(ERROR, ''workflow failed'')]) \<and>
   (fst (gen_poster_workflow_body cfg w name) = Inr b \<longrightarrow>
      gen_poster_workflow cfg w name = gen_poster_workflow_body cfg w name) \<and>
   (w_listdir w (join (POSTER_FOLDER cfg) name) = Inr listing \<and>
    filter (accepted (w_isfile w) (join (POSTER_FOLDER cfg) name)) listing = [] \<longrightarrow>
      fst (gen_poster_workflow cfg w name) = Inr False \<and>
      ERROR \<in> fst ` set (snd (gen_poster_workflow cfg w name)))"
proof -
  obtain r l where body: "gen_poster_workflow_body cfg w name = (r, l)"
    by (cases "gen_poster_workflow_body cfg w name") auto
  have raised: "gen_poster_workflow cfg w name = (Inr False, l @ [(ERROR, ''workflow failed'')])"
    if "r = Inl x" for x
    using that body by (simp add: gen_poster_workflow_def try_except_def handler_result)
  have returned: "gen_poster_workflow cfg w name = (Inr x, l)" if "r = Inr x" for x
    using that body by (simp add: gen_poster_workflow_def try_except_def)
  have total: "\<exists>b. fst (gen_poster_workflow cfg w name) = Inr b"
    using raised returned by (cases r) auto
  have caught: "fst (gen_poster_workflow cfg w name) = Inr False \<and>
      snd (gen_poster_workflow cfg w name) =
        snd (gen_poster_workflow_body cfg w name) @ [(ERROR, ''workflow failed'')]"
    if "fst (gen_poster_workflow_body cfg w name) = Inl e"
    using that body raised [of e] by simp
  have same: "gen_poster_workflow cfg w name = gen_poster_workflow_body cfg w name"
    if "fst (gen_poster_workflow_body cfg w name) = Inr b"
    using that body returned [of b] by simp
  have none: "fst (gen_poster_workflow cfg w name) = Inr False \<and>
      ERROR \<in> fst ` set (snd (gen_poster_workflow cfg w name))"
    if h: "w_listdir w (join (POSTER_FOLDER cfg) name) = Inr listing \<and>
      filter (accepted (w_isfile w) (join (POSTER_FOLDER cfg) name)) listing = []"
  proof -
    have "(\<exists>e. r = Inl e) \<or> (r = Inr False \<and> ERROR \<in> fst ` set l)"
      using body_without_posters [of w cfg name listing] h body by simp
    then show ?thesis
    proof
      assume "\<exists>e. r = Inl e"
      then obtain x where "r = Inl x" by blast
      then show ?thesis using raised [of x] by (simp add: image_iff)
    next
      assume "r = Inr False \<and> ERROR \<in> fst ` set l"
      then show ?thesis using returned [of False] by simp
    qed
  qed
  show ?thesis using total caught same none by blast
qed

lemma create_gradient_background_returns:
  "0 \<le> w \<Longrightarrow> 0 \<le> h \<Longrightarrow> \<exists>img. create_gradient_background d1 d2 w h c1 c2 = Inr img"
  by (simp add: create_gradient_background_def Image_new_def Let_def)

lemma unreadable_body:
  "gen_poster_workflow_body example_config unreadable_world ''Movies'' =
     (Inl ValueError, [(INFO, ''generating poster''), (INFO, ''----''), (ERROR, ''primary color'')])"
  by (simp add: gen_poster_workflow_body_def Let_def bind_def logger_def sample_colors_def
      get_poster_primary_color_def unreadable_world_def unpack_two_def lift_def)

lemma empty_folder_sample:
  "sample_colors empty_folder_world p = (Inr ((200, 0, 0, 255), (0, 200, 0, 255)), [])"
  by (simp add: sample_colors_def empty_folder_world_def get_poster_primary_color_def
      primary_color_of_def first_filter_def kept_def brightness_def opaque_def Counter_def
      most_common_def item_def unpack_two_def lift_def bind_def ret_def)

lemma empty_folder_listing:
  "filter (accepted (w_isfile empty_folder_world) (join (POSTER_FOLDER example_config) ''Movies''))
     [''notes.txt'', ''10.jpg''] = []"
  by code_simp

lemma empty_folder_body:
  "gen_poster_workflow_body example_config empty_folder_world ''Movies'' =
     (Inr False, [(INFO, ''generating poster''), (INFO, ''----''), (ERROR, ''no supported image'')])"
proof -
  obtain img where g: "create_gradient_background (0, 0, 0) (0, 0, 0) 1920 1080
      (Some (rgb_of (200, 0, 0, 255))) (Some (rgb_of (0, 200, 0, 255))) = Inr img"
    using create_gradient_background_returns
      [of 1920 1080 "(0, 0, 0)" "(0, 0, 0)" "Some (rgb_of (200, 0, 0, 255))"
          "Some (rgb_of (0, 200, 0, 255))"]
    by auto
  have d: "ensure_dirs example_config empty_folder_world p = (Inr (), [])" for p
    by (simp add: ensure_dirs_def empty_folder_world_def example_config_def bind_def ret_def)
  have l: "w_listdir empty_folder_world (join (POSTER_FOLDER example_config) ''Movies'')
      = Inr [''notes.txt'', ''10.jpg'']"
    by (simp add: empty_folder_world_def)
  have f: "find_posters empty_folder_world (join (POSTER_FOLDER example_config) ''Movies'')
      = (Inr [], [])"
    using l empty_folder_listing by (rule find_posters_none)
  show ?thesis
    unfolding gen_poster_workflow_body_def Let_def empty_folder_sample
    by (simp add: bind_def logger_def lift_def g d f ret_def)
qed

theorem gen_poster_workflow_never_raises_witness:
  "gen_poster_workflow example_config unreadable_world ''Movies'' =
     (Inr False, [(INFO, ''generating poster''), (INFO, ''----''), (ERROR, ''primary color''),
                  (ERROR, ''workflow failed'')]) \<and>
   gen_poster_workflow example_config empty_folder_world ''Movies'' =
     (Inr False, [(INFO, ''generating poster''), (INFO, ''----''), (ERROR, ''no supported image'')]) \<and>
   ERROR \<in> fst ` set (snd (gen_poster_workflow example_config empty_folder_world ''Movies''))"
proof -
  note u = gen_poster_workflow_never_raises
    [of example_config unreadable_world "''Movies''" ValueError False "[''notes.txt'']"]
  note v = gen_poster_workflow_never_raises
    [of example_config empty_folder_world "''Movies''" ValueError False "[''notes.txt'', ''10.jpg'']"]
  have raised: "fst (gen_poster_workflow_body example_config unreadable_world ''Movies'') = Inl ValueError"
    by (simp add: unreadable_body)
  have a: "gen_poster_workflow example_config unreadable_world ''Movies'' =
     (Inr False, [(INFO, ''generating poster''), (INFO, ''----''), (ERROR, ''primary color''),
                  (ERROR, ''workflow failed'')])"
    using u [THEN conjunct2, THEN conjunct1, rule_format, OF raised]
    by (simp add: unreadable_body prod_eq_iff)
  have returned: "fst (gen_poster_workflow_body example_config empty_folder_world ''Movies'') = Inr False"
    by (simp add: empty_folder_body)
  have b: "gen_poster_workflow example_config empty_folder_world ''Movies'' =
     (Inr False, [(INFO, ''generating poster''), (INFO, ''----''), (ERROR, ''no supported image'')])"
    using v [THEN conjunct2, THEN conjunct2, THEN conjunct1, rule_format, OF returned]
    by (simp add: empty_folder_body)
  have none: "w_listdir empty_folder_world (join (POSTER_FOLDER example_config) ''Movies'')
        = Inr [''notes.txt'', ''10.jpg''] \<and>
      filter (accepted (w_isfile empty_folder_world) (join (POSTER_FOLDER example_config) ''Movies''))
        [''notes.txt'', ''10.jpg''] = []"
    using empty_folder_listing by (simp add: empty_folder_world_def)
  have c: "ERROR \<in> fst ` set (snd (gen_poster_workflow example_config empty_folder_world ''Movies''))"
    using v [THEN conjunct2, THEN conjunct2, THEN conjunct2, rule_format, OF none] by simp
  show ?thesis using a b c by (intro conjI)
qed

subsection \<open>The workflow on nine posters\<close>

lemma rotation_canvas_size_nonneg: "0 \<le> rotation_canvas_size cw ch"
  by (simp add: rotation_canvas_size_floor)

lemma place_poster_result:
  "place_poster w p =
     (Inr (), case w_poster w p of None \<Rightarrow> [] | Some e \<Rightarrow> [(ERROR, ''poster skipped'')])"
  by (simp add: place_poster_def attempt_def try_except_def logger_def split: option.splits)

lemma place_posters_result:
  "for_each (place_poster w) ps =
     (Inr (), concat (map (\<lambda>p. case w_poster w p of None \<Rightarrow> []
                                   | Some e \<Rightarrow> [(ERROR, ''poster skipped'')]) ps))"
  by (induction ps) (simp_all add: ret_def place_poster_result bind_def)

lemma nine_posters_column:
  "build_column example_config (full_folder_world\<lparr>w_poster := f\<rparr>) (i, ps) =
     (Inr (), concat (map (\<lambda>p. case f p of None \<Rightarrow> []
                                   | Some e \<Rightarrow> [(ERROR, ''poster skipped'')]) ps))"
proof -
  have s: "\<not> rotation_canvas_size 410 (column_height_of 3 610 22) < 0"
    using rotation_canvas_size_nonneg [of 410 "column_height_of 3 610 22"] by simp
  have c: "column_canvas_size 410 (column_height_of 3 610 22) = (470, 1934)"
    by (simp add: column_canvas_size_def column_height_of_def shadow_extra_width_def
        shadow_extra_height_def)
  have cfg: "ROWS example_config = 3" "CELL_HEIGHT example_config = 610"
    "MARGIN example_config = 22" "CELL_WIDTH example_config = 410"
    "SAVE_COLUMNS example_config = False"
    by (simp_all add: example_config_def)
  have w: "w_rotate full_folder_world i = None" "w_place full_folder_world i = None"
    by (simp_all add: full_folder_world_def)
  show ?thesis
    unfolding build_column_def Let_def cfg
    using s
    by (simp add: place_posters_result c w Image_new_def lift_def bind_def ret_def attempt_def)
qed

lemma nine_posters_found:
  "find_posters (full_folder_world\<lparr>w_poster := f\<rparr>) ''poster/Movies'' =
     (Inr [''poster/Movies/3.jpg'', ''poster/Movies/1.jpg'', ''poster/Movies/5.jpg'',
           ''poster/Movies/4.jpg'', ''poster/Movies/2.jpg'', ''poster/Movies/6.jpg'',
           ''poster/Movies/9.jpg'', ''poster/Movies/8.jpg'', ''poster/Movies/7.jpg''], [])"
proof -
  have "poster_files_of (\<lambda>p. True) ''poster/Movies''
      [''1.jpg'', ''2.jpg'', ''3.jpg'', ''4.jpg'', ''5.jpg'', ''6.jpg'', ''7.jpg'', ''8.jpg'', ''9.jpg'']
      = Inr [''poster/Movies/3.jpg'', ''poster/Movies/1.jpg'', ''poster/Movies/5.jpg'',
           ''poster/Movies/4.jpg'', ''poster/Movies/2.jpg'', ''poster/Movies/6.jpg'',
           ''poster/Movies/9.jpg'', ''poster/Movies/8.jpg'', ''poster/Movies/7.jpg'']"
    by code_simp
  then show ?thesis
    by (simp add: find_posters_def full_folder_world_def lift_def bind_def)
qed

lemma nine_posters_sample:
  "sample_colors (full_folder_world\<lparr>w_poster := f\<rparr>) p =
     (Inr ((200, 0, 0, 255), (0, 200, 0, 255)), [])"
  by (simp add: sample_colors_def full_folder_world_def get_poster_primary_color_def
      primary_color_of_def first_filter_def kept_def brightness_def opaque_def Counter_def
      most_common_def item_def unpack_two_def lift_def bind_def ret_def)

lemma nine_posters_accent:
  "accent_color (full_folder_world\<lparr>w_poster := f\<rparr>) (p # ps) = (Inr (300, 260, 7, 255), [])"
  by (simp add: accent_color_def full_folder_world_def get_random_color_def
      get_random_color_body_def sample_point_def randint_def getpixel_def bind_def ret_def)

lemma nine_posters_groups:
  "grouped_posters 3
     [''poster/Movies/3.jpg'', ''poster/Movies/1.jpg'', ''poster/Movies/5.jpg'',
      ''poster/Movies/4.jpg'', ''poster/Movies/2.jpg'', ''poster/Movies/6.jpg'',
      ''poster/Movies/9.jpg'', ''poster/Movies/8.jpg'', ''poster/Movies/7.jpg''] =
   Inr [[''poster/Movies/3.jpg'', ''poster/Movies/1.jpg'', ''poster/Movies/5.jpg''],
        [''poster/Movies/4.jpg'', ''poster/Movies/2.jpg'', ''poster/Movies/6.jpg''],
        [''poster/Movies/9.jpg'', ''poster/Movies/8.jpg'', ''poster/Movies/7.jpg'']]"
  by code_simp

lemma nine_posters_columns:
  "processed_columns 3 [[a1, a2, a3], [b1, b2, b3], [c1, c2, c3]] =
     [(0, [a1, a2, a3]), (1, [b1, b2, b3]), (2, [c1, c2, c3 :: string])]"
  by (simp add: processed_columns_def)

text \<open>
  With the nine posters \<open>1.jpg\<close> to \<open>9.jpg\<close>, no template and every other operation
  succeeding, the workflow returns True, whatever happens to the single posters: a poster
  that cannot be processed is logged and skipped by the handler inside the column loop.
\<close>

lemma workflow_on_nine_posters:
  "gen_poster_workflow example_config (full_folder_world\<lparr>w_poster := f\<rparr>) ''Movies'' =
     (Inr True,
      [(INFO, ''generating poster''), (INFO, ''----'')] @
      concat (map (\<lambda>p. case f p of None \<Rightarrow> [] | Some e \<Rightarrow> [(ERROR, ''poster skipped'')])
        [''poster/Movies/3.jpg'', ''poster/Movies/1.jpg'', ''poster/Movies/5.jpg'',
         ''poster/Movies/4.jpg'', ''poster/Movies/2.jpg'', ''poster/Movies/6.jpg'',
         ''poster/Movies/9.jpg'', ''poster/Movies/8.jpg'', ''poster/Movies/7.jpg'']) @
      [(INFO, ''saved'')])"
proof -
  let ?w = "full_folder_world\<lparr>w_poster := f\<rparr>"
  obtain img where g: "create_gradient_background (0, 0, 0) (0, 0, 0) 1920 1080
      (Some (rgb_of (200, 0, 0, 255))) (Some (rgb_of (0, 200, 0, 255))) = Inr img"
    using create_gradient_background_returns
      [of 1920 1080 "(0, 0, 0)" "(0, 0, 0)" "Some (rgb_of (200, 0, 0, 255))"
          "Some (rgb_of (0, 200, 0, 255))"]
    by auto
  have d: "ensure_dirs example_config ?w p = (Inr (), [])" for p
    by (simp add: ensure_dirs_def full_folder_world_def example_config_def bind_def ret_def
        attempt_def Let_def)
  have j: "join (POSTER_FOLDER example_config) ''Movies'' = ''poster/Movies''"
    by (simp add: example_config_def join_def)
  have t: "draw_titles example_config ?w ''Movies'' = (Inr (), [])"
    by (simp add: draw_titles_def titles_of_def example_config_def full_folder_world_def
        attempt_def bind_def ret_def)
  have sv: "attempt (w_save full_folder_world x) = (Inr (), [])" for x
    by (simp add: full_folder_world_def attempt_def)
  have cfg: "ROWS example_config = 3" "COLS example_config = 3"
    by (simp_all add: example_config_def)
  have body: "gen_poster_workflow_body example_config ?w ''Movies'' =
     (Inr True,
      [(INFO, ''generating poster''), (INFO, ''----'')] @
      concat (map (\<lambda>p. case f p of None \<Rightarrow> [] | Some e \<Rightarrow> [(ERROR, ''poster skipped'')])
        [''poster/Movies/3.jpg'', ''poster/Movies/1.jpg'', ''poster/Movies/5.jpg'',
         ''poster/Movies/4.jpg'', ''poster/Movies/2.jpg'', ''poster/Movies/6.jpg'',
         ''poster/Movies/9.jpg'', ''poster/Movies/8.jpg'', ''poster/Movies/7.jpg'']) @
      [(INFO, ''saved'')])"
    unfolding gen_poster_workflow_body_def Let_def j nine_posters_sample nine_posters_found cfg
    by (simp add: bind_def logger_def lift_def g d ret_def nine_posters_groups
        nine_posters_columns nine_posters_column nine_posters_accent t sv)
  then show ?thesis
    by (simp add: gen_poster_workflow_def try_except_def)
qed

lemma workflow_skips_a_failing_poster:
  "gen_poster_workflow example_config
     (full_folder_world\<lparr>w_poster := (\<lambda>p. if p = ''poster/Movies/9.jpg'' then Some OSError else None)\<rparr>)
     ''Movies'' =
     (Inr True, [(INFO, ''generating poster''), (INFO, ''----''), (ERROR, ''poster skipped''),
                 (INFO, ''saved'')])"
  by (simp add: workflow_on_nine_posters)

lemma workflow_end_to_end_example:
  "gen_poster_workflow example_config full_folder_world ''Movies'' =
     (Inr True, [(INFO, ''generating poster''), (INFO, ''----''), (INFO, ''saved'')])"
proof -
  have "full_folder_world\<lparr>w_poster := (\<lambda>p. None)\<rparr> = full_folder_world"
    by (simp add: full_folder_world_def)
  then show ?thesis
    using workflow_on_nine_posters [of "\<lambda>p. None"] by simp
qed

end
